theory Spec2Isabelle
  imports Main
begin

section \<open>Python strings\<close>

text \<open>
  A Python \<open>str\<close> is a sequence of Unicode code points, so a string is a list of
  code points (natural numbers). Literals of the source are written \<open>str ''...''\<close>.
\<close>

type_synonym pystr = "nat list"
type_synonym bytes = "nat list"

abbreviation str :: "string \<Rightarrow> pystr" where
  "str s \<equiv> map of_char s"

text \<open>
  The characters that \<open>str.strip\<close>, \<open>str.rstrip\<close> and \<open>str.isspace\<close> treat as
  whitespace (CPython's \<open>_PyUnicode_IsWhitespace\<close>): U+0009..U+000D, U+001C..U+0020,
  U+0085, U+00A0, U+1680, U+2000..U+200A, U+2028, U+2029, U+202F, U+205F, U+3000.
\<close>

definition is_space :: "nat \<Rightarrow> bool" where
  "is_space c = ((9 \<le> c \<and> c \<le> 13) \<or> (28 \<le> c \<and> c \<le> 32) \<or> c = 133 \<or> c = 160
      \<or> c = 5760 \<or> (8192 \<le> c \<and> c \<le> 8202) \<or> c = 8232 \<or> c = 8233 \<or> c = 8239
      \<or> c = 8287 \<or> c = 12288)"

text \<open>
  The line boundaries of \<open>str.splitlines\<close> (CPython's \<open>_PyUnicode_IsLinebreak\<close>):
  LF, VT, FF, CR, FS, GS, RS, NEL, LS, PS; CR LF counts as one boundary.
\<close>

definition is_linebreak :: "nat \<Rightarrow> bool" where
  "is_linebreak c = ((10 \<le> c \<and> c \<le> 13) \<or> (28 \<le> c \<and> c \<le> 30) \<or> c = 133
      \<or> c = 8232 \<or> c = 8233)"

abbreviation NL :: nat where "NL \<equiv> 10"
abbreviation CR :: nat where "CR \<equiv> 13"

definition lstrip :: "pystr \<Rightarrow> pystr" where
  "lstrip s = dropWhile is_space s"

definition rstrip :: "pystr \<Rightarrow> pystr" where
  "rstrip s = rev (dropWhile is_space (rev s))"

definition strip :: "pystr \<Rightarrow> pystr" where
  "strip s = rstrip (lstrip s)"

text \<open>\<open>s.strip(chars)\<close>: drop the characters of \<open>chars\<close> from both ends.\<close>

definition strip_chars :: "pystr \<Rightarrow> pystr \<Rightarrow> pystr" where
  "strip_chars chars s =
     rev (dropWhile (\<lambda>c. c \<in> set chars) (rev (dropWhile (\<lambda>c. c \<in> set chars) s)))"

definition startswith :: "pystr \<Rightarrow> pystr \<Rightarrow> bool" where
  "startswith s p = (take (length p) s = p)"

definition endswith :: "pystr \<Rightarrow> pystr \<Rightarrow> bool" where
  "endswith s p = startswith (rev s) (rev p)"

text \<open>\<open>sub in s\<close> for strings: \<open>sub\<close> occurs in \<open>s\<close> as a contiguous piece.\<close>

fun contains :: "pystr \<Rightarrow> pystr \<Rightarrow> bool" where
  "contains [] sub = (sub = [])"
| "contains (c # cs) sub = (startswith (c # cs) sub \<or> contains cs sub)"

text \<open>\<open>sep.join(parts)\<close> for the one-character separator \<open>"\n"\<close>.\<close>

fun join_nl :: "pystr list \<Rightarrow> pystr" where
  "join_nl [] = []"
| "join_nl [l] = l"
| "join_nl (l # m # ls) = l @ NL # join_nl (m # ls)"

text \<open>
  \<open>s.split(sep)\<close> for a one-character separator: the pieces between the separators,
  empty pieces kept; the empty string gives one empty piece.
\<close>

fun split_on :: "nat \<Rightarrow> pystr \<Rightarrow> pystr list" where
  "split_on sep [] = [[]]"
| "split_on sep (c # cs) =
     (if c = sep then [] # split_on sep cs
      else (case split_on sep cs of p # ps \<Rightarrow> (c # p) # ps | [] \<Rightarrow> [[c]]))"

text \<open>
  \<open>s.splitlines()\<close>: the lines of \<open>s\<close> without their line boundaries; a boundary at
  the very end opens no further line and the empty string has no line.
\<close>

function splitlines :: "pystr \<Rightarrow> pystr list" where
  "splitlines [] = []"
| "splitlines (c # cs) =
     (let s = c # cs;
          ln = takeWhile (\<lambda>x. \<not> is_linebreak x) s;
          rest = dropWhile (\<lambda>x. \<not> is_linebreak x) s
      in case rest of
           [] \<Rightarrow> [ln]
         | b # r \<Rightarrow> ln # splitlines (if b = CR \<and> startswith r [NL] then tl r else r))"
  by pat_completeness auto
termination
proof (relation "measure length", goal_cases)
  case 1
  show ?case by simp
next
  case (2 c cs s ln rest b r)
  have "length (dropWhile (\<lambda>x. \<not> is_linebreak x) (c # cs)) \<le> length (c # cs)"
    by (rule length_dropWhile_le)
  with 2 have "length (b # r) \<le> length (c # cs)"
    by (simp del: dropWhile.simps takeWhile.simps)
  then have "length r < length (c # cs)" by simp
  moreover have "length (tl r) \<le> length r" by simp
  ultimately show ?case by (simp del: length_tl)
qed

section \<open>The Markdown normalisation of \<open>ocr_to_markdown\<close>\<close>

text \<open>
  Lines 141 to 155 of \<open>scripts/ocr_to_md.py\<close>. The loop over \<open>lines\<close> carries the
  counter \<open>empty\<close> (here \<open>empty_n\<close>) and the list \<open>md_lines\<close> built so far.
\<close>

fun collapse_loop :: "pystr list \<Rightarrow> nat \<Rightarrow> pystr list \<Rightarrow> pystr list" where
  "collapse_loop [] empty_n md_lines = md_lines"
| "collapse_loop (ln # lns) empty_n md_lines =
     (if strip ln \<noteq> [] then collapse_loop lns 0 (md_lines @ [ln])
      else if empty_n + 1 < 2 then collapse_loop lns (empty_n + 1) (md_lines @ [[]])
      else collapse_loop lns (empty_n + 1) md_lines)"

definition markdown_normalization :: "pystr \<Rightarrow> pystr" where
  "markdown_normalization text =
     (let lines = map rstrip (splitlines text);
          md_lines = collapse_loop lines 0 []
      in strip (join_nl md_lines) @ [NL])"

text \<open>
  The normaliser in the words of the specification: trailing whitespace is stripped from
  each line, every run of blank lines is replaced by one empty line, the joined text is
  stripped and one newline is appended.
\<close>

definition blank :: "pystr \<Rightarrow> bool" where
  "blank l = (\<forall>c \<in> set l. is_space c)"

function collapse_runs :: "pystr list \<Rightarrow> pystr list" where
  "collapse_runs [] = []"
| "collapse_runs (l # ls) =
     (if blank l then [] # collapse_runs (dropWhile blank ls) else l # collapse_runs ls)"
  by pat_completeness auto
termination
proof (relation "measure length", goal_cases)
  case 1
  show ?case by simp
next
  case (2 l ls)
  have "length (dropWhile blank ls) \<le> length ls" by (rule length_dropWhile_le)
  then show ?case by simp
next
  case (3 l ls)
  show ?case by simp
qed

definition spec_normalize :: "pystr \<Rightarrow> pystr" where
  "spec_normalize raw = strip (join_nl (collapse_runs (map rstrip (splitlines raw)))) @ [NL]"


text \<open>
  Two notions used to describe the lines of a text: a line is free of line boundaries,
  and a list of lines is written out with a newline after each line.
\<close>

definition nolb :: "pystr \<Rightarrow> bool" where
  "nolb l = (\<forall>c \<in> set l. \<not> is_linebreak c)"

definition unlines :: "pystr list \<Rightarrow> pystr" where
  "unlines ls = concat (map (\<lambda>l. l @ [NL]) ls)"

section \<open>The outside world\<close>

text \<open>
  Exceptions are values. \<open>SystemExit\<close> derives from \<open>BaseException\<close> only, so an
  \<open>except Exception\<close> clause does not catch it; the other errors are exceptions it
  catches. Each error carries the text that \<open>str(e)\<close> gives.
\<close>

datatype error =
    SystemExit pystr
  | FileNotFoundError pystr
  | UnidentifiedImageError pystr
  | TesseractError pystr
  | OtherError pystr

fun is_Exception :: "error \<Rightarrow> bool" where
  "is_Exception (SystemExit _) = False"
| "is_Exception _ = True"

fun error_str :: "error \<Rightarrow> pystr" where
  "error_str (SystemExit m) = m"
| "error_str (FileNotFoundError m) = m"
| "error_str (UnidentifiedImageError m) = m"
| "error_str (TesseractError m) = m"
| "error_str (OtherError m) = m"

text \<open>
  The value that \<open>response.json()\<close> returns. A JSON object is the list of its members,
  looked up by key.
\<close>

datatype json =
    JNull
  | JBool bool
  | JNum int
  | JStr pystr
  | JArr "json list"
  | JObj "(pystr \<times> json) list"

text \<open>
  What lines 106 to 108 of \<open>scripts/ocr_to_md.py\<close> can give: \<open>requests.post\<close>,
  \<open>raise_for_status\<close> and \<open>response.json()\<close> raise a timeout, another
  \<open>RequestException\<close> or some other exception, or deliver the decoded body.
\<close>

datatype post_outcome =
    PostTimeout
  | PostRequestException
  | PostOtherException
  | PostJson json

type_synonym image = "nat list"
type_synonym filesystem = "pystr \<rightharpoonup> bytes"

text \<open>
  Everything the two source files take from their environment: whether \<open>import
  requests\<close> succeeded, the lines of \<open>backend/.env\<close> that could be read (\<open>None\<close>
  when the file is absent or cannot be opened; a read error in the middle ends the
  list there, since the source ignores it), the environment variable
  \<open>OPENROUTER_API_KEY\<close>, the remote API, Pillow, Tesseract, \<open>os.remove\<close>,
  \<open>tempfile.mkdtemp\<close>, \<open>uuid.uuid4\<close>, \<open>secure_filename\<close> and \<open>file.save\<close>.
\<close>

record world =
  requests_available :: bool
  env_file :: "pystr list option"
  environ_key :: "pystr option"
  http_post :: "pystr \<Rightarrow> pystr \<Rightarrow> bytes \<Rightarrow> post_outcome"
  image_open :: "bytes \<Rightarrow> image option"
  grayscale :: "image \<Rightarrow> error + image"
  autocontrast :: "image \<Rightarrow> error + image"
  image_to_string :: "image \<Rightarrow> pystr \<Rightarrow> error + pystr"
  remove_fails :: "pystr \<Rightarrow> bool"
  UPLOAD_FOLDER :: pystr
  uuid4 :: pystr
  secure_filename :: "pystr \<Rightarrow> pystr"
  save_fails :: bool

text \<open>What a call prints, logs, or asks of the OCR engine and the remote API, in order.\<close>

datatype message =
    NoApiKey
  | LlmTimedOut
  | LlmNetworkError
  | LlmFailed
  | LanguageNotAvailable pystr

datatype log_entry =
    ProcessingWithLLM pystr
  | ProcessingWithOCR pystr
  | ProcessingError pystr
  | CleanupFailed pystr
  | UploadError

datatype event =
    RunOcr pystr
  | PostRequest pystr
  | Printed message
  | Logged log_entry

section \<open>\<open>scripts/ocr_to_md.py\<close>\<close>

subsection \<open>\<open>ocr_to_markdown\<close>\<close>

text \<open>
  The texts of the two errors of opening a file; Python puts the path in single quotes
  (code point 39).
\<close>

definition quoted :: "pystr \<Rightarrow> pystr" where
  "quoted path = 39 # path @ [39]"

definition no_such_file :: "pystr \<Rightarrow> error" where
  "no_such_file path =
     FileNotFoundError (str ''[Errno 2] No such file or directory: '' @ quoted path)"

definition cannot_identify :: "pystr \<Rightarrow> error" where
  "cannot_identify path =
     UnidentifiedImageError (str ''cannot identify image file '' @ quoted path)"

text \<open>
  \<open>ocr_to_markdown\<close>: the image is opened, turned to grey and contrast-normalised, each
  of which can raise (Pillow loads the pixel data only then); the OCR run follows, with
  the retry in English when the language data is missing, and the normalisation.
\<close>

definition ocr_to_markdown ::
  "world \<Rightarrow> filesystem \<Rightarrow> pystr \<Rightarrow> pystr \<Rightarrow> (error + pystr) \<times> event list" where
  "ocr_to_markdown w fs image_path lang =
     (case fs image_path of
        None \<Rightarrow> (Inl (no_such_file image_path), [])
      | Some data \<Rightarrow>
          (case image_open w data of
             None \<Rightarrow> (Inl (cannot_identify image_path), [])
           | Some img0 \<Rightarrow>
               (case grayscale w img0 of
                  Inl e \<Rightarrow> (Inl e, [])
                | Inr gray \<Rightarrow>
                    (case autocontrast w gray of
                       Inl e \<Rightarrow> (Inl e, [])
                     | Inr img \<Rightarrow>
                         (let l = (if lang = [] then str ''eng'' else lang)
                          in case image_to_string w img l of
                               Inr text \<Rightarrow> (Inr (markdown_normalization text), [RunOcr l])
                             | Inl (TesseractError m) \<Rightarrow>
                                 (if contains m (str ''Failed loading language'') then
                                    (case image_to_string w img (str ''eng'') of
                                       Inr text \<Rightarrow>
                                         (Inr (markdown_normalization text),
                                          [RunOcr l, Printed (LanguageNotAvailable lang),
                                           RunOcr (str ''eng'')])
                                     | Inl e \<Rightarrow>
                                         (Inl e,
                                          [RunOcr l, Printed (LanguageNotAvailable lang),
                                           RunOcr (str ''eng'')]))
                                  else (Inl (TesseractError m), [RunOcr l]))
                             | Inl e \<Rightarrow> (Inl e, [RunOcr l]))))))"

subsection \<open>\<open>llm_to_markdown\<close>\<close>

definition lang_names :: "(pystr \<times> pystr) list" where
  "lang_names =
     [(str ''hrv'', str ''Croatian''),
      (str ''eng'', str ''English''),
      (str ''fra'', str ''French''),
      (str ''deu'', str ''German''),
      (str ''spa'', str ''Spanish''),
      (str ''ita'', str ''Italian'')]"

definition lang_context :: "pystr \<Rightarrow> pystr" where
  "lang_context lang = (case map_of lang_names lang of Some name \<Rightarrow> name | None \<Rightarrow> str ''English'')"

definition prompt :: "pystr \<Rightarrow> pystr" where
  "prompt context =
     str ''Please analyze this image and extract all text content into well-formatted Markdown. The document appears to be in ''
     @ context
     @ str ''. Preserve the original structure, headings, and formatting. Include all visible text, numbers, and maintain the document's hierarchy. Be thorough and accurate.''"

text \<open>Line 56 and line 66: a key counts when it is not empty and not a placeholder.\<close>

definition valid_key :: "pystr \<Rightarrow> bool" where
  "valid_key k = (k \<noteq> [] \<and> \<not> startswith k (str ''your-'') \<and> k \<noteq> str ''your_api_key_here'')"

text \<open>
  \<open>line.split('=', 1)[1].strip().strip('"\'')\<close> on a line that starts with
  \<open>OPENROUTER_API_KEY=\<close>: the text after the first \<open>=\<close> (code point 61), stripped of
  whitespace and then of the two quote characters (code points 34 and 39).
\<close>

definition key_of_line :: "pystr \<Rightarrow> pystr" where
  "key_of_line line = strip_chars [34, 39] (strip (drop 1 (dropWhile (\<lambda>c. c \<noteq> 61) line)))"

text \<open>The loop of lines 51 to 59 over the lines of the \<open>.env\<close> file.\<close>

fun env_file_key :: "pystr list \<Rightarrow> pystr option" where
  "env_file_key [] = None"
| "env_file_key (raw # rest) =
     (let line = strip raw in
      if startswith line (str ''OPENROUTER_API_KEY='') then
        (let api_key = key_of_line line in
         if valid_key api_key then Some api_key else env_file_key rest)
      else env_file_key rest)"

definition resolve_api_key :: "world \<Rightarrow> pystr option" where
  "resolve_api_key w =
     (case (case env_file w of None \<Rightarrow> None | Some lines \<Rightarrow> env_file_key lines) of
        Some api_key \<Rightarrow> Some api_key
      | None \<Rightarrow>
          (case environ_key w of
             None \<Rightarrow> None
           | Some env_api_key \<Rightarrow> if valid_key env_api_key then Some env_api_key else None))"

text \<open>
  Lines 110 to 113: \<open>result['choices'][0]['message']['content']\<close>, a string. \<open>None\<close>
  stands for every way this raises: the explicit \<open>Exception\<close> when \<open>choices\<close> is
  missing or empty, and the \<open>KeyError\<close>, \<open>TypeError\<close>, \<open>IndexError\<close> or
  \<open>AttributeError\<close> when the body has another shape.
\<close>

definition response_content :: "json \<Rightarrow> pystr option" where
  "response_content result =
     (case result of
        JObj members \<Rightarrow>
          (case map_of members (str ''choices'') of
             Some (JArr (JObj choice # _)) \<Rightarrow>
               (case map_of choice (str ''message'') of
                  Some (JObj msg) \<Rightarrow>
                    (case map_of msg (str ''content'') of
                       Some (JStr content) \<Rightarrow> Some content
                     | _ \<Rightarrow> None)
                | _ \<Rightarrow> None)
           | _ \<Rightarrow> None)
      | _ \<Rightarrow> None)"

definition fallback ::
  "world \<Rightarrow> filesystem \<Rightarrow> pystr \<Rightarrow> pystr \<Rightarrow> event list \<Rightarrow> (error + pystr) \<times> event list" where
  "fallback w fs image_path lang before =
     (fst (ocr_to_markdown w fs image_path lang),
      before @ snd (ocr_to_markdown w fs image_path lang))"

definition llm_to_markdown ::
  "world \<Rightarrow> filesystem \<Rightarrow> pystr \<Rightarrow> pystr \<Rightarrow> (error + pystr) \<times> event list" where
  "llm_to_markdown w fs image_path lang =
     (if \<not> requests_available w then
        (Inl (SystemExit (str ''requests library required for LLM parsing. Install with: pip install requests'')), [])
      else case fs image_path of
        None \<Rightarrow> (Inl (no_such_file image_path), [])
      | Some image_data \<Rightarrow>
          (case resolve_api_key w of
             None \<Rightarrow> fallback w fs image_path lang [Printed NoApiKey]
           | Some api_key \<Rightarrow>
               (let request = PostRequest (prompt (lang_context lang)) in
                case http_post w api_key (prompt (lang_context lang)) image_data of
                  PostTimeout \<Rightarrow> fallback w fs image_path lang [request, Printed LlmTimedOut]
                | PostRequestException \<Rightarrow>
                    fallback w fs image_path lang [request, Printed LlmNetworkError]
                | PostOtherException \<Rightarrow> fallback w fs image_path lang [request, Printed LlmFailed]
                | PostJson result \<Rightarrow>
                    (case response_content result of
                       None \<Rightarrow> fallback w fs image_path lang [request, Printed LlmFailed]
                     | Some content \<Rightarrow> (Inr (strip content @ [NL]), [request])))))"

section \<open>\<open>app.py\<close>\<close>






text \<open>\<open>os.path.join\<close> of the upload folder and one more component.\<close>

definition path_join :: "pystr \<Rightarrow> pystr \<Rightarrow> pystr" where
  "path_join folder name = (if startswith name [47] then name else folder @ 47 # name)"

definition cleanup_file :: "world \<Rightarrow> filesystem \<Rightarrow> pystr \<Rightarrow> filesystem \<times> event list" where
  "cleanup_file w fs filepath =
     (if fs filepath \<noteq> None then
        (if remove_fails w filepath then (fs, [Logged (CleanupFailed filepath)])
         else (fs(filepath := None), []))
      else (fs, []))"

record extraction_data =
  raw_text :: pystr
  lines :: "pystr list"
  method_used :: pystr
  language :: pystr
  file_id :: pystr

datatype body =
    ErrorBody pystr
  | UploadBody pystr pystr nat
  | ProcessBody extraction_data

type_synonym response = "nat \<times> body"

text \<open>
  The multipart field \<open>file\<close> of an upload request: its file name, if any, and its
  content. A \<open>FileStorage\<close> object is false exactly when its file name is empty.
\<close>

record upload =
  filename :: "pystr option"
  content :: bytes


text \<open>
  The body of a process request: not JSON at all (\<open>get_json\<close> raises), the JSON value
  \<open>null\<close>, or a JSON object, here with string values.
\<close>

datatype process_request =
    NotJson
  | JsonNull
  | JsonObject "(pystr \<times> pystr) list"

definition dict_get :: "(pystr \<times> pystr) list \<Rightarrow> pystr \<Rightarrow> pystr \<Rightarrow> pystr" where
  "dict_get d key dflt = (case map_of d key of Some v \<Rightarrow> v | None \<Rightarrow> dflt)"

text \<open>Line 123: \<open>[line.strip() for line in markdown_content.split('\n') if line.strip()]\<close>.\<close>

definition content_lines :: "pystr \<Rightarrow> pystr list" where
  "content_lines markdown_content =
     map strip (filter (\<lambda>line. strip line \<noteq> []) (split_on NL markdown_content))"

text \<open>
  \<open>process_ocr\<close> gives a response, or lets an error escape that is no \<open>Exception\<close>;
  with it come the file system after the call and what was done and logged.
\<close>

definition process_ocr ::
  "world \<Rightarrow> filesystem \<Rightarrow> process_request \<Rightarrow> (error + response) \<times> filesystem \<times> event list" where
  "process_ocr w fs request =
     (case request of
        NotJson \<Rightarrow> (Inr (500, ErrorBody (str ''Processing request failed'')), fs, [])
      | JsonNull \<Rightarrow> (Inr (400, ErrorBody (str ''No data provided'')), fs, [])
      | JsonObject data \<Rightarrow>
          if data = [] then (Inr (400, ErrorBody (str ''No data provided'')), fs, [])
          else
            (let fid = dict_get data (str ''file_id'') [];
                 method = dict_get data (str ''method'') (str ''ocr'');
                 lang = dict_get data (str ''language'') (str ''eng'')
             in if fid = [] then (Inr (400, ErrorBody (str ''No file_id provided'')), fs, [])
                else
                  (let filepath = path_join (UPLOAD_FOLDER w) fid
                   in if fs filepath = None then
                        (Inr (404, ErrorBody (str ''File not found'')), fs, [])
                      else
                        (let extracted =
                               (if method = str ''llm'' then llm_to_markdown w fs filepath lang
                                else ocr_to_markdown w fs filepath lang);
                             start =
                               (if method = str ''llm'' then Logged (ProcessingWithLLM fid)
                                else Logged (ProcessingWithOCR fid));
                             cleaned = cleanup_file w fs filepath
                         in case fst extracted of
                              Inr markdown_content \<Rightarrow>
                                (Inr (200, ProcessBody
                                   \<lparr>raw_text = markdown_content,
                                    lines = content_lines markdown_content,
                                    method_used = method,
                                    language = lang,
                                    file_id = fid\<rparr>),
                                 fst cleaned,
                                 start # snd extracted @ snd cleaned)
                            | Inl e \<Rightarrow>
                                if is_Exception e then
                                  (Inr (500, ErrorBody (str ''Processing failed: '' @ error_str e)),
                                   fst cleaned,
                                   start # snd extracted
                                     @ Logged (ProcessingError (error_str e)) # snd cleaned)
                                else
                                  (Inl e, fst cleaned, start # snd extracted @ snd cleaned)))))"

text \<open>\<open>get_available_languages\<close>: the codes and names the languages endpoint lists.\<close>

definition get_available_languages :: "(pystr \<times> pystr) list" where
  "get_available_languages =
     [(str ''eng'', str ''English''),
      (str ''hrv'', str ''Croatian''),
      (str ''fra'', str ''French''),
      (str ''deu'', str ''German''),
      (str ''spa'', str ''Spanish''),
      (str ''ita'', str ''Italian''),
      (str ''eng+hrv'', str ''English + Croatian'')]"

section \<open>Reading a call\<close>

text \<open>
  The extraction data of a successful process response, and what the events of a call
  say about it: the text came from the OCR engine exactly when the engine was run, and
  the language applied is the one of its last run.
\<close>

fun response_data :: "(error + response) \<Rightarrow> extraction_data option" where
  "response_data (Inr (_, ProcessBody d)) = Some d"
| "response_data _ = None"

fun status_of :: "(error + response) \<Rightarrow> nat option" where
  "status_of (Inr (st, _)) = Some st"
| "status_of (Inl _) = None"

fun ocr_runs :: "event list \<Rightarrow> pystr list" where
  "ocr_runs [] = []"
| "ocr_runs (RunOcr l # es) = l # ocr_runs es"
| "ocr_runs (_ # es) = ocr_runs es"

definition method_actually_used :: "event list \<Rightarrow> pystr" where
  "method_actually_used es = (if ocr_runs es = [] then str ''llm'' else str ''ocr'')"

definition language_actually_applied :: "event list \<Rightarrow> pystr option" where
  "language_actually_applied es = (if ocr_runs es = [] then None else Some (last (ocr_runs es)))"

section \<open>Example worlds and requests\<close>

text \<open>
  A world without API key whose OCR engine has the English language data only, an
  upload folder holding one file, and variations of both.
\<close>

definition example_world :: world where
  "example_world =
     \<lparr>requests_available = True,
      env_file = None,
      environ_key = None,
      http_post = (\<lambda>_ _ _. PostTimeout),
      image_open = Some,
      grayscale = Inr,
      autocontrast = Inr,
      image_to_string =
        (\<lambda>img l. if l = str ''eng'' then Inr (str ''Hi'')
                  else Inl (TesseractError (str ''Failed loading language''))),
      remove_fails = (\<lambda>_. False),
      UPLOAD_FOLDER = str ''/tmp/up'',
      uuid4 = str ''u1'',
      secure_filename = id,
      save_fails = False\<rparr>"

definition example_path :: pystr where
  "example_path = str ''/tmp/up/f.png''"

definition example_fs :: filesystem where
  "example_fs = [example_path \<mapsto> [1]]"

definition example_request :: process_request where
  "example_request =
     JsonObject [(str ''file_id'', str ''f.png''), (str ''method'', str ''llm''),
                 (str ''language'', str ''hrv'')]"

definition ocr_request :: process_request where
  "ocr_request = JsonObject [(str ''file_id'', str ''f.png'')]"


definition keyed_world :: world where
  "keyed_world = example_world\<lparr>environ_key := Some (str ''sk-or-v1-abc'')\<rparr>"


definition broken_engine_world :: world where
  "broken_engine_world =
     keyed_world\<lparr>image_to_string := (\<lambda>_ _. Inl (TesseractError (str ''boom'')))\<rparr>"

definition empty_reply_world :: world where
  "empty_reply_world =
     keyed_world\<lparr>http_post := (\<lambda>_ _ _. PostJson (JObj [(str ''choices'', JArr [])]))\<rparr>"

definition placeholder_world :: world where
  "placeholder_world =
     example_world\<lparr>env_file := Some [str ''OPENROUTER_API_KEY=your_api_key_here''],
                   environ_key := Some (str ''your-key'')\<rparr>"

definition no_requests_world :: world where
  "no_requests_world = example_world\<lparr>requests_available := False\<rparr>"

definition stuck_file_world :: world where
  "stuck_file_world = example_world\<lparr>remove_fails := (\<lambda>_. True)\<rparr>"


section \<open>Facts about the string functions\<close>

lemma is_space_NL: "is_space NL" by (simp add: is_space_def)
lemma linebreak_space: "is_linebreak c \<Longrightarrow> is_space c"
  by (auto simp: is_space_def is_linebreak_def)

lemma blank_Nil: "blank []" by (simp add: blank_def)
lemma blank_rev: "blank (rev l) = blank l" by (simp add: blank_def)

lemma lstrip_Nil_iff: "lstrip l = [] \<longleftrightarrow> blank l"
  by (simp add: lstrip_def blank_def dropWhile_eq_Nil_conv)

lemma rstrip_Nil_iff: "rstrip l = [] \<longleftrightarrow> blank l"
  by (simp add: rstrip_def blank_def dropWhile_eq_Nil_conv)

lemma rstrip_Cons_nonspace:
  "\<not> is_space a \<Longrightarrow> rstrip (a # t) = a # rstrip t"
  by (simp add: rstrip_def dropWhile_append dropWhile_eq_Nil_conv)

lemma lstrip_hd: "lstrip s = a # t \<Longrightarrow> \<not> is_space a"
  unfolding lstrip_def using hd_dropWhile[of is_space s] by auto

lemma strip_Nil_iff: "strip l = [] \<longleftrightarrow> blank l"
proof (cases "lstrip l")
  case Nil
  then show ?thesis using lstrip_Nil_iff[of l] by (simp add: strip_def rstrip_def)
next
  case (Cons a t)
  then have "\<not> is_space a" by (rule lstrip_hd)
  then have "strip l = a # rstrip t" by (simp add: strip_def Cons rstrip_Cons_nonspace)
  moreover have "\<not> blank l" using Cons lstrip_Nil_iff[of l] by simp
  ultimately show ?thesis by simp
qed

lemma lstrip_idem: "lstrip (lstrip s) = lstrip s"
  by (simp add: lstrip_def)
lemma rstrip_idem: "rstrip (rstrip s) = rstrip s"
  by (simp add: rstrip_def)

lemma lstrip_strip: "lstrip (strip s) = strip s"
proof (cases "lstrip s")
  case Nil
  then have "strip s = []" by (simp add: strip_def rstrip_def)
  then show ?thesis by (simp add: lstrip_def)
next
  case (Cons a t)
  then have a: "\<not> is_space a" by (rule lstrip_hd)
  then have "strip s = a # rstrip t" by (simp add: strip_def Cons rstrip_Cons_nonspace)
  then show ?thesis using a by (simp add: lstrip_def)
qed

lemma rstrip_strip: "rstrip (strip s) = strip s"
  by (simp add: strip_def rstrip_idem)

lemma rstrip_last: "rstrip b = b \<Longrightarrow> b \<noteq> [] \<Longrightarrow> \<not> is_space (last b)"
proof -
  assume e: "rstrip b = b" and n: "b \<noteq> []"
  from e have "dropWhile is_space (rev b) = rev b"
    by (metis rev_rev_ident rstrip_def)
  with n have "\<not> is_space (hd (rev b))"
    using hd_dropWhile[of is_space "rev b"] by auto
  then show ?thesis using n by (simp add: hd_rev)
qed

lemma collapse_loop_eq:
  "collapse_loop ls e acc = acc @ collapse_runs (if 1 \<le> e then dropWhile blank ls else ls)"
proof (induction ls arbitrary: e acc)
  case Nil
  then show ?case by simp
next
  case (Cons l ls)
  show ?case
  proof (cases "blank l")
    case True
    then show ?thesis using Cons.IH[of "e + 1"] by (cases "e = 0") (simp_all add: strip_Nil_iff)
  next
    case False
    then show ?thesis using Cons.IH[of 0] by (simp add: strip_Nil_iff)
  qed
qed

lemma normalization_refines: "markdown_normalization t = spec_normalize t"
  by (simp add: markdown_normalization_def spec_normalize_def collapse_loop_eq)



lemma splitlines_nonempty:
  "s \<noteq> [] \<Longrightarrow> splitlines s =
     (case dropWhile (\<lambda>x. \<not> is_linebreak x) s of
        [] \<Rightarrow> [takeWhile (\<lambda>x. \<not> is_linebreak x) s]
      | b # r \<Rightarrow> takeWhile (\<lambda>x. \<not> is_linebreak x) s
                 # splitlines (if b = CR \<and> startswith r [NL] then tl r else r))"
  by (cases s) (simp_all add: Let_def del: takeWhile.simps dropWhile.simps cong: list.case_cong)

lemma splitlines_line:
  assumes "nolb l"
  shows "splitlines (l @ NL # rest) = l # splitlines rest"
proof -
  have lb: "is_linebreak NL" by (simp add: is_linebreak_def)
  have tw: "takeWhile (\<lambda>x. \<not> is_linebreak x) (l @ NL # rest) = l"
    using assms lb by (simp add: nolb_def takeWhile_append2)
  have dw: "dropWhile (\<lambda>x. \<not> is_linebreak x) (l @ NL # rest) = NL # rest"
    using assms lb by (simp add: nolb_def dropWhile_append2)
  have "splitlines (l @ NL # rest) =
     (case dropWhile (\<lambda>x. \<not> is_linebreak x) (l @ NL # rest) of
        [] \<Rightarrow> [takeWhile (\<lambda>x. \<not> is_linebreak x) (l @ NL # rest)]
      | b # r \<Rightarrow> takeWhile (\<lambda>x. \<not> is_linebreak x) (l @ NL # rest)
                 # splitlines (if b = CR \<and> startswith r [NL] then tl r else r))"
    by (rule splitlines_nonempty) simp
  also have "\<dots> = l # splitlines rest"
    unfolding tw dw by simp
  finally show ?thesis .
qed

lemma splitlines_unlines: "\<forall>l\<in>set ls. nolb l \<Longrightarrow> splitlines (unlines ls) = ls"
proof (induction ls)
  case Nil
  then show ?case by (simp add: unlines_def)
next
  case (Cons l ls)
  then have "splitlines (l @ NL # unlines ls) = l # splitlines (unlines ls)"
    by (simp add: splitlines_line)
  then show ?case using Cons by (simp add: unlines_def)
qed

lemma splitlines_nolb: "\<forall>l\<in>set (splitlines s). nolb l"
proof (induction s rule: splitlines.induct)
  case 1
  then show ?case by simp
next
  case (2 c cs)
  let ?s = "c # cs"
  let ?ln = "takeWhile (\<lambda>x. \<not> is_linebreak x) ?s"
  let ?rest = "dropWhile (\<lambda>x. \<not> is_linebreak x) ?s"
  have ln: "nolb ?ln" unfolding nolb_def using set_takeWhileD by fastforce
  show ?case
  proof (cases ?rest)
    case Nil
    then have "splitlines ?s = [?ln]" unfolding splitlines.simps Let_def by simp
    then show ?thesis using ln by simp
  next
    case (Cons b r)
    let ?next = "if b = CR \<and> startswith r [NL] then tl r else r"
    have "splitlines ?s = ?ln # splitlines ?next"
      unfolding splitlines.simps Let_def Cons by simp
    moreover have "\<forall>l\<in>set (splitlines ?next). nolb l"
      using "2.IH"[OF refl refl refl Cons] by simp
    ultimately show ?thesis using ln by simp
  qed
qed

lemma join_nl_Cons: "join_nl (l # ls) = l @ concat (map ((#) NL) ls)"
  by (induction ls arbitrary: l) simp_all

lemma join_nl_snoc: "ls \<noteq> [] \<Longrightarrow> join_nl (ls @ [l]) = join_nl ls @ NL # l"
  by (cases ls) (simp_all add: join_nl_Cons)

lemma join_nl_unlines: "ls \<noteq> [] \<Longrightarrow> join_nl ls @ [NL] = unlines ls"
proof (induction ls rule: join_nl.induct)
  case 1
  then show ?case by simp
next
  case (2 l)
  then show ?case by (simp add: unlines_def)
next
  case (3 l m ls)
  then show ?case by (simp add: unlines_def)
qed

lemma rev_join_nl: "rev (join_nl ls) = join_nl (rev (map rev ls))"
proof (induction ls rule: join_nl.induct)
  case 1
  then show ?case by simp
next
  case (2 l)
  then show ?case by simp
next
  case (3 l m ls)
  have "rev (join_nl (l # m # ls)) = rev (join_nl (m # ls)) @ NL # rev l" by simp
  also have "\<dots> = join_nl (rev (map rev (m # ls))) @ NL # rev l" using 3 by simp
  also have "\<dots> = join_nl (rev (map rev (m # ls)) @ [rev l])"
    by (rule join_nl_snoc[symmetric]) simp
  finally show ?case by simp
qed

lemma lstrip_blank_append: "blank l \<Longrightarrow> lstrip (l @ s) = lstrip s"
  by (simp add: lstrip_def blank_def)

lemma lstrip_nonblank_append: "\<not> blank l \<Longrightarrow> lstrip (l @ s) = lstrip l @ s"
  by (auto simp: lstrip_def blank_def)

lemma lstrip_join_nl:
  "lstrip (join_nl ls) = (case dropWhile blank ls of [] \<Rightarrow> [] | f # r \<Rightarrow> join_nl (lstrip f # r))"
proof (induction ls)
  case Nil
  then show ?case by (simp add: lstrip_def)
next
  case (Cons l ls)
  show ?case
  proof (cases "blank l")
    case True
    have "lstrip (join_nl (l # ls)) = lstrip (concat (map ((#) NL) ls))"
      using True by (simp add: join_nl_Cons lstrip_blank_append)
    also have "\<dots> = lstrip (join_nl ls)"
      by (cases ls) (simp_all add: join_nl_Cons lstrip_def is_space_NL)
    finally show ?thesis using True Cons by simp
  next
    case False
    then show ?thesis by (simp add: join_nl_Cons lstrip_nonblank_append)
  qed
qed

lemma rstrip_rev: "rstrip s = rev (lstrip (rev s))"
  by (simp add: rstrip_def lstrip_def)

lemma dropWhile_blank_map_rev:
  "dropWhile blank (map rev ls) = map rev (dropWhile blank ls)"
  by (induction ls) (simp_all add: blank_rev)

lemma rstrip_join_nl:
  "rstrip (join_nl ls) =
     (case dropWhile blank (rev ls) of [] \<Rightarrow> [] | g # r \<Rightarrow> join_nl (rev r @ [rstrip g]))"
proof -
  have "rstrip (join_nl ls) = rev (lstrip (join_nl (map rev (rev ls))))"
    by (simp add: rstrip_rev rev_join_nl rev_map)
  also have "\<dots> = rev (case map rev (dropWhile blank (rev ls)) of
                          [] \<Rightarrow> [] | f # r \<Rightarrow> join_nl (lstrip f # r))"
    by (simp add: lstrip_join_nl dropWhile_blank_map_rev)
  also have "\<dots> = (case dropWhile blank (rev ls) of
                     [] \<Rightarrow> [] | g # r \<Rightarrow> join_nl (rev r @ [rstrip g]))"
  proof (cases "dropWhile blank (rev ls)")
    case Nil
    show ?thesis unfolding Nil by simp
  next
    case (Cons g r)
    show ?thesis unfolding Cons by (simp add: rev_join_nl rstrip_rev rev_map)
  qed
  finally show ?thesis .
qed

lemma blank_lstrip: "blank (lstrip f) = blank f"
  using lstrip_Nil_iff[of f] lstrip_Nil_iff[of "lstrip f"] by (simp add: lstrip_idem)
lemma blank_rstrip: "blank (rstrip f) = blank f"
  using rstrip_Nil_iff[of f] rstrip_Nil_iff[of "rstrip f"] by (simp add: rstrip_idem)

text \<open>the lines of a stripped join\<close>
lemma strip_join_nl_cases:
  "strip (join_nl ls) = [] \<or>
   (\<exists>f r g r'. dropWhile blank ls = f # r \<and> dropWhile blank (rev (lstrip f # r)) = g # r'
        \<and> strip (join_nl ls) = join_nl (rev r' @ [rstrip g]))"
proof (cases "dropWhile blank ls")
  case Nil
  have "strip (join_nl ls) = []"
    unfolding strip_def lstrip_join_nl Nil by (simp add: rstrip_def)
  then show ?thesis by simp
next
  case (Cons f r)
  then have "\<not> blank f" using hd_dropWhile[of blank ls] by auto
  then have nb: "\<not> blank (lstrip f)" by (simp add: blank_lstrip)
  have s1: "strip (join_nl ls) = rstrip (join_nl (lstrip f # r))"
    by (simp add: strip_def lstrip_join_nl Cons)
  obtain g r' where d: "dropWhile blank (rev (lstrip f # r)) = g # r'"
    using nb by (cases "dropWhile blank (rev (lstrip f # r))") (auto simp: dropWhile_eq_Nil_conv)
  have "strip (join_nl ls) = join_nl (rev r' @ [rstrip g])"
    unfolding s1 rstrip_join_nl d by simp
  then show ?thesis using Cons d by blast
qed






lemma collapse_runs_hd:
  "xs \<noteq> [] \<Longrightarrow> \<not> blank (hd xs) \<Longrightarrow> collapse_runs xs = hd xs # collapse_runs (tl xs)"
  by (cases xs) simp_all


lemma collapse_runs_set: "set (collapse_runs ls) \<subseteq> insert [] (set ls)"
proof (induction ls rule: collapse_runs.induct)
  case 1
  then show ?case by simp
next
  case (2 l ls)
  show ?case
  proof (cases "blank l")
    case True
    then have "set (collapse_runs (dropWhile blank ls)) \<subseteq> insert [] (set (dropWhile blank ls))"
      using 2 by simp
    moreover have "set (dropWhile blank ls) \<subseteq> set ls" by (rule set_dropWhileD[THEN subsetI])
    ultimately show ?thesis using True by auto
  next
    case False
    then show ?thesis using 2 by auto
  qed
qed

lemma nolb_Nil: "nolb []" by (simp add: nolb_def)
lemma nolb_lstrip: "nolb l \<Longrightarrow> nolb (lstrip l)"
  unfolding nolb_def lstrip_def using set_dropWhileD by fastforce
lemma nolb_rstrip: "nolb l \<Longrightarrow> nolb (rstrip l)"
  unfolding nolb_def rstrip_def using set_dropWhileD by fastforce




lemma stripped_join_ends:
  assumes ne: "strip (join_nl ls) \<noteq> []"
  shows "\<exists>ls'. strip (join_nl ls) @ [NL] = unlines ls' \<and> ls' \<noteq> []
            \<and> (\<forall>l\<in>set ls'. nolb l \<or> \<not> (\<forall>m\<in>set ls. nolb m))
            \<and> \<not> blank (hd ls') \<and> \<not> blank (last ls')"
proof -
  from strip_join_nl_cases[of ls] ne
  obtain f r g r' where d1: "dropWhile blank ls = f # r"
      and d2: "dropWhile blank (rev (lstrip f # r)) = g # r'"
      and e: "strip (join_nl ls) = join_nl (rev r' @ [rstrip g])" by blast
  let ?ls' = "rev r' @ [rstrip g]"
  have nbf: "\<not> blank f" using d1 hd_dropWhile[of blank ls] by auto
  have nbg: "\<not> blank g" using d2 hd_dropWhile[of blank "rev (lstrip f # r)"] by auto
  have sub1: "set (f # r) \<subseteq> set ls" using set_dropWhileD[of _ blank ls] d1 by auto
  have sub2: "set (g # r') \<subseteq> set (rev (lstrip f # r))"
    using set_dropWhileD[of _ blank "rev (lstrip f # r)"] d2 by auto
  have n': "\<forall>l\<in>set ?ls'. nolb l \<or> \<not> (\<forall>m\<in>set ls. nolb m)"
  proof (cases "\<forall>m\<in>set ls. nolb m")
    case True
    then have "nolb (lstrip f)" using sub1 by (simp add: nolb_lstrip)
    then have "\<forall>l\<in>set (g # r'). nolb l" using sub2 True sub1 by auto
    then show ?thesis by (auto simp: nolb_rstrip)
  next
    case False
    then show ?thesis by simp
  qed
  have lastl: "\<not> blank (last ?ls')" using nbg by (simp add: blank_rstrip)
  have "takeWhile blank (rev (lstrip f # r)) @ (g # r') = rev (lstrip f # r)"
    unfolding d2[symmetric] by (rule takeWhile_dropWhile_id)
  then have "last (g # r') = last (rev (lstrip f # r))"
    by (metis last_appendR list.distinct(1))
  then have lg: "last (g # r') = lstrip f" by simp
  have hdl: "\<not> blank (hd ?ls')"
  proof (cases r')
    case Nil
    then show ?thesis using nbg by (simp add: blank_rstrip)
  next
    case (Cons a as)
    then have "hd ?ls' = last r'" by (simp add: hd_append hd_rev)
    also have "\<dots> = lstrip f" using lg Cons by simp
    finally show ?thesis using nbf by (simp add: blank_lstrip)
  qed
  have "strip (join_nl ls) @ [NL] = unlines ?ls'"
    unfolding e by (rule join_nl_unlines) simp
  then show ?thesis using n' lastl hdl by blast
qed

lemma normalization_ends:
  assumes "butlast (markdown_normalization t) \<noteq> []"
  shows "\<not> blank (hd (splitlines (markdown_normalization t)))
       \<and> \<not> blank (last (splitlines (markdown_normalization t)))"
proof -
  let ?md = "collapse_runs (map rstrip (splitlines t))"
  have out: "markdown_normalization t = strip (join_nl ?md) @ [NL]"
    by (simp add: normalization_refines spec_normalize_def)
  then have ne: "strip (join_nl ?md) \<noteq> []" using assms by simp
  have "\<forall>l\<in>set (map rstrip (splitlines t)). nolb l"
    using splitlines_nolb[of t] by (auto simp: nolb_rstrip)
  then have nl: "\<forall>l\<in>set ?md. nolb l"
    using collapse_runs_set[of "map rstrip (splitlines t)"] nolb_Nil by blast
  from stripped_join_ends[OF ne] nl obtain ls' where
    "strip (join_nl ?md) @ [NL] = unlines ls'" "\<forall>l\<in>set ls'. nolb l"
    "\<not> blank (hd ls')" "\<not> blank (last ls')" by blast
  then show ?thesis by (simp add: out splitlines_unlines)
qed

lemma endswith_snoc: "endswith (b @ [c]) [c]"
  by (simp add: endswith_def startswith_def)

lemma endswith_two: "endswith (b @ [c]) [c, c] \<Longrightarrow> b \<noteq> [] \<and> last b = c"
  by (cases b rule: rev_cases) (auto simp: endswith_def startswith_def)

lemma stripped_newline:
  "endswith (strip s @ [NL]) [NL] \<and> \<not> endswith (strip s @ [NL]) [NL, NL]"
proof -
  have "\<not> endswith (strip s @ [NL]) [NL, NL]"
  proof
    assume "endswith (strip s @ [NL]) [NL, NL]"
    then have "strip s \<noteq> [] \<and> last (strip s) = NL" by (rule endswith_two)
    then show False using rstrip_last[OF rstrip_strip, of s] is_space_NL by auto
  qed
  then show ?thesis by (simp add: endswith_snoc)
qed

lemma content_lines_eq:
  "content_lines md = filter (\<lambda>l. l \<noteq> []) (map strip (split_on NL md))"
  by (simp add: content_lines_def filter_map comp_def)

lemma process_ocr_data:
  assumes "response_data (fst (process_ocr w fs request)) = Some d"
  shows "\<exists>data. request = JsonObject data
           \<and> lines d = content_lines (raw_text d)
           \<and> method_used d = dict_get data (str ''method'') (str ''ocr'')
           \<and> language d = dict_get data (str ''language'') (str ''eng'')
           \<and> file_id d = dict_get data (str ''file_id'') []"
proof (cases request)
  case NotJson
  then show ?thesis using assms by (simp add: process_ocr_def)
next
  case JsonNull
  then show ?thesis using assms by (simp add: process_ocr_def)
next
  case (JsonObject data)
  then show ?thesis using assms
    by (auto simp: process_ocr_def Let_def split: if_splits sum.splits)
qed

lemma example_ocr:
  "ocr_to_markdown example_world example_fs example_path (str ''hrv'') =
     (Inr (markdown_normalization (str ''Hi'')),
      [RunOcr (str ''hrv''), Printed (LanguageNotAvailable (str ''hrv'')), RunOcr (str ''eng'')])"
  by (simp add: ocr_to_markdown_def example_world_def example_fs_def example_path_def
      startswith_def Let_def)

lemma normalize_Hi: "markdown_normalization (str ''Hi'') = [72, 105, 10]"
  by (simp add: markdown_normalization_def is_linebreak_def is_space_def startswith_def
        rstrip_def lstrip_def strip_def)

lemma example_process:
  "process_ocr example_world example_fs example_request =
     (Inr (200, ProcessBody \<lparr>raw_text = [72, 105, 10], lines = [[72, 105]],
             method_used = str ''llm'', language = str ''hrv'', file_id = str ''f.png''\<rparr>),
      Map.empty,
      [Logged (ProcessingWithLLM (str ''f.png'')), Printed NoApiKey,
       RunOcr (str ''hrv''), Printed (LanguageNotAvailable (str ''hrv'')), RunOcr (str ''eng'')])"
proof -
  have p: "path_join (UPLOAD_FOLDER example_world) (str ''f.png'') = example_path"
    by (simp add: path_join_def example_world_def example_path_def startswith_def)
  have k: "resolve_api_key example_world = None"
    by (simp add: resolve_api_key_def example_world_def)
  have l: "llm_to_markdown example_world example_fs example_path (str ''hrv'') =
     (Inr [72, 105, 10],
      [Printed NoApiKey, RunOcr (str ''hrv''), Printed (LanguageNotAvailable (str ''hrv'')),
       RunOcr (str ''eng'')])"
    unfolding llm_to_markdown_def k fallback_def example_ocr normalize_Hi
    by (simp add: example_world_def example_fs_def)
  have c: "content_lines [72, 105, 10] = [[72, 105]]"
    by (simp add: content_lines_def is_space_def rstrip_def lstrip_def strip_def)
  have cl: "cleanup_file example_world example_fs example_path = (Map.empty, [])"
    by (simp add: cleanup_file_def example_world_def example_fs_def)
  show ?thesis
    unfolding process_ocr_def example_request_def
    by (simp add: dict_get_def p[simplified] l[simplified] c cl Let_def)
       (simp add: example_fs_def)
qed

lemma ocr_runs_append: "ocr_runs (xs @ ys) = ocr_runs xs @ ocr_runs ys"
  by (induction xs rule: ocr_runs.induct) simp_all

lemma ocr_success_runs:
  "fst (ocr_to_markdown w fs p lang) = Inr t \<Longrightarrow> ocr_runs (snd (ocr_to_markdown w fs p lang)) \<noteq> []"
  by (auto simp: ocr_to_markdown_def Let_def split: option.splits sum.splits error.splits if_splits)

lemma cleanup_no_runs: "ocr_runs (snd (cleanup_file w fs p)) = []"
  by (simp add: cleanup_file_def)

lemma llm_neq_ocr: "str ''llm'' \<noteq> str ''ocr''"
  by simp

lemma llm_first_event:
  assumes "requests_available w" "fs p = Some b" "resolve_api_key w = Some k"
  shows "hd (snd (llm_to_markdown w fs p lang)) = PostRequest (prompt (lang_context lang))"
  using assms
  by (simp add: llm_to_markdown_def fallback_def Let_def split: post_outcome.splits option.splits)

lemma keyed_key: "resolve_api_key keyed_world = Some (str ''sk-or-v1-abc'')"
  by (simp add: resolve_api_key_def keyed_world_def example_world_def valid_key_def
      startswith_def)

lemma env_file_key_None_iff:
  "env_file_key ls = None \<longleftrightarrow>
     (\<forall>raw\<in>set ls. startswith (strip raw) (str ''OPENROUTER_API_KEY='')
          \<longrightarrow> \<not> valid_key (key_of_line (strip raw)))"
  by (induction ls) (auto simp: Let_def)

lemma llm_without_key:
  assumes "requests_available w" and "resolve_api_key w = None"
  shows "fst (llm_to_markdown w fs p lang) = fst (ocr_to_markdown w fs p lang)"
    and "fs p \<noteq> None \<Longrightarrow>
           snd (llm_to_markdown w fs p lang) = Printed NoApiKey # snd (ocr_to_markdown w fs p lang)"
  using assms
  by (auto simp: llm_to_markdown_def fallback_def ocr_to_markdown_def split: option.splits)

lemma example_ocr_eng:
  "ocr_to_markdown example_world example_fs example_path (str ''eng'') =
     (Inr [72, 105, 10], [RunOcr (str ''eng'')])"
  by (simp add: ocr_to_markdown_def example_world_def example_fs_def example_path_def
      Let_def normalize_Hi[simplified])

lemma llm_fallback:
  assumes "requests_available w" and "fs p = Some b" and "resolve_api_key w = Some k"
    and "http_post w k (prompt (lang_context lang)) b = outcome"
    and "outcome = PostTimeout \<or> outcome = PostRequestException \<or> outcome = PostOtherException
         \<or> (\<exists>j. outcome = PostJson j \<and> response_content j = None)"
  shows "fst (llm_to_markdown w fs p lang) = fst (ocr_to_markdown w fs p lang)"
    and "\<exists>m. snd (llm_to_markdown w fs p lang)
              = [PostRequest (prompt (lang_context lang)), Printed m]
                @ snd (ocr_to_markdown w fs p lang)"
  using assms by (auto simp: llm_to_markdown_def fallback_def Let_def)

lemma keyed_ocr_eng:
  "ocr_to_markdown keyed_world example_fs example_path (str ''eng'') =
     (Inr [72, 105, 10], [RunOcr (str ''eng'')])"
  by (simp add: ocr_to_markdown_def keyed_world_def example_world_def example_fs_def
      example_path_def Let_def normalize_Hi[simplified])

lemma empty_reply_ocr_eng:
  "ocr_to_markdown empty_reply_world example_fs example_path (str ''eng'') =
     (Inr [72, 105, 10], [RunOcr (str ''eng'')])"
  by (simp add: ocr_to_markdown_def empty_reply_world_def keyed_world_def example_world_def
      example_fs_def example_path_def Let_def normalize_Hi[simplified])

lemma empty_reply_key: "resolve_api_key empty_reply_world = Some (str ''sk-or-v1-abc'')"
  by (simp add: resolve_api_key_def empty_reply_world_def keyed_world_def example_world_def
      valid_key_def startswith_def)

lemma broken_engine_key: "resolve_api_key broken_engine_world = Some (str ''sk-or-v1-abc'')"
  by (simp add: resolve_api_key_def broken_engine_world_def keyed_world_def example_world_def
      valid_key_def startswith_def)




lemma splitlines_chars:
  "(\<Union>l\<in>set (splitlines s). set l) = {c \<in> set s. \<not> is_linebreak c}"
proof (induction s rule: splitlines.induct)
  case 1
  then show ?case by simp
next
  case (2 c cs)
  define s where "s = c # cs"
  define ln where "ln = takeWhile (\<lambda>x. \<not> is_linebreak x) s"
  define rest where "rest = dropWhile (\<lambda>x. \<not> is_linebreak x) s"
  have ne: "s \<noteq> []" by (simp add: s_def)
  have split: "s = ln @ rest" by (simp add: ln_def rest_def)
  have ln1: "\<forall>x\<in>set ln. \<not> is_linebreak x"
    unfolding ln_def by (metis set_takeWhileD)
  have sl: "splitlines s =
     (case rest of [] \<Rightarrow> [ln]
      | b # r \<Rightarrow> ln # splitlines (if b = CR \<and> startswith r [NL] then tl r else r))"
    unfolding ln_def rest_def by (rule splitlines_nonempty[OF ne])
  have goal: "(\<Union>l\<in>set (splitlines s). set l) = {c \<in> set s. \<not> is_linebreak c}"
  proof (cases rest)
    case Nil
    then have e: "splitlines s = [ln]" using sl by simp
    have "ln = s" using split Nil by simp
    then have "set ln = {c \<in> set s. \<not> is_linebreak c}" using ln1 by auto
    then show ?thesis unfolding e by simp
  next
    case (Cons b r)
    define nxt where "nxt = (if b = CR \<and> startswith r [NL] then tl r else r)"
    have e: "splitlines s = ln # splitlines nxt" using sl Cons by (simp add: nxt_def)
    have d: "dropWhile (\<lambda>x. \<not> is_linebreak x) (c # cs) = b # r"
      using Cons by (simp only: rest_def s_def)
    have ih: "(\<Union>l\<in>set (splitlines nxt). set l) = {c \<in> set nxt. \<not> is_linebreak c}"
      unfolding nxt_def by (rule "2.IH"[OF refl refl refl d])
    have "is_linebreak (hd rest)"
      unfolding rest_def using hd_dropWhile[of "\<lambda>x. \<not> is_linebreak x" s] Cons rest_def
      by fastforce
    then have lb: "is_linebreak b" using Cons by simp
    have nx: "{c \<in> set nxt. \<not> is_linebreak c} = {c \<in> set r. \<not> is_linebreak c}"
    proof (cases "b = CR \<and> startswith r [NL]")
      case True
      then obtain r' where r': "r = NL # r'" by (cases r) (simp_all add: startswith_def)
      have "is_linebreak NL" by (simp add: is_linebreak_def)
      then show ?thesis using True r' by (auto simp: nxt_def)
    next
      case False
      then have "nxt = r" unfolding nxt_def by (simp only: if_False)
      then show ?thesis by simp
    qed
    have "set s = set ln \<union> (insert b (set r))" using split Cons by (metis set_append list.simps(15))
    then have "{c \<in> set s. \<not> is_linebreak c} = set ln \<union> {c \<in> set r. \<not> is_linebreak c}"
      using ln1 lb by blast
    moreover have "(\<Union>l\<in>set (splitlines s). set l) = set ln \<union> (\<Union>l\<in>set (splitlines nxt). set l)"
      unfolding e by simp
    ultimately show ?thesis using ih nx by simp
  qed
  then show ?case by (simp only: s_def)
qed

lemma splitlines_blank: "(\<forall>l\<in>set (splitlines s). blank l) \<longleftrightarrow> blank s"
proof -
  have "(\<forall>l\<in>set (splitlines s). blank l) \<longleftrightarrow> (\<forall>c\<in>(\<Union>l\<in>set (splitlines s). set l). is_space c)"
    by (auto simp: blank_def)
  also have "\<dots> \<longleftrightarrow> (\<forall>c\<in>{c \<in> set s. \<not> is_linebreak c}. is_space c)"
    by (simp only: splitlines_chars)
  also have "\<dots> \<longleftrightarrow> blank s"
    using linebreak_space by (auto simp: blank_def)
  finally show ?thesis .
qed

lemma join_nl_blank: "blank (join_nl ls) \<longleftrightarrow> (\<forall>l\<in>set ls. blank l)"
  by (induction ls rule: join_nl.induct) (auto simp: blank_def is_space_NL)

lemma collapse_runs_blank: "(\<forall>l\<in>set (collapse_runs ls). blank l) \<longleftrightarrow> (\<forall>l\<in>set ls. blank l)"
proof (induction ls rule: collapse_runs.induct)
  case 1
  then show ?case by simp
next
  case (2 l ls)
  show ?case
  proof (cases "blank l")
    case True
    have "(\<forall>x\<in>set (dropWhile blank ls). blank x) \<longleftrightarrow> (\<forall>x\<in>set ls. blank x)"
    proof
      assume a: "\<forall>x\<in>set (dropWhile blank ls). blank x"
      have "dropWhile blank ls = []"
      proof (cases "dropWhile blank ls")
        case Nil
        then show ?thesis .
      next
        case (Cons y ys)
        then have "\<not> blank y" using hd_dropWhile[of blank ls] by auto
        then show ?thesis using a Cons by simp
      qed
      then show "\<forall>x\<in>set ls. blank x" by (simp add: dropWhile_eq_Nil_conv)
    next
      assume "\<forall>x\<in>set ls. blank x"
      then show "\<forall>x\<in>set (dropWhile blank ls). blank x"
        using set_dropWhileD[of _ blank ls] by blast
    qed
    then show ?thesis using 2 True by (simp add: blank_Nil)
  next
    case False
    then show ?thesis using 2 by simp
  qed
qed

lemma normalization_blank: "butlast (markdown_normalization raw) = [] \<longleftrightarrow> blank raw"
proof -
  let ?md = "collapse_runs (map rstrip (splitlines raw))"
  have "butlast (markdown_normalization raw) = strip (join_nl ?md)"
    by (simp add: normalization_refines spec_normalize_def)
  then have "butlast (markdown_normalization raw) = [] \<longleftrightarrow> (\<forall>l\<in>set ?md. blank l)"
    by (simp add: strip_Nil_iff join_nl_blank)
  also have "\<dots> \<longleftrightarrow> (\<forall>l\<in>set (map rstrip (splitlines raw)). blank l)"
    by (rule collapse_runs_blank)
  also have "\<dots> \<longleftrightarrow> (\<forall>l\<in>set (splitlines raw). blank l)"
    by (simp add: blank_rstrip)
  also have "\<dots> \<longleftrightarrow> blank raw" by (rule splitlines_blank)
  finally show ?thesis .
qed

lemma normalization_of_blank: "blank raw \<Longrightarrow> markdown_normalization raw = [NL]"
proof -
  assume "blank raw"
  then have "butlast (markdown_normalization raw) = []" by (simp add: normalization_blank)
  moreover have "markdown_normalization raw
      = strip (join_nl (collapse_runs (map rstrip (splitlines raw)))) @ [NL]"
    by (simp add: normalization_refines spec_normalize_def)
  ultimately show ?thesis by simp
qed





lemma ocr_ignores_remove:
  "ocr_to_markdown (w\<lparr>remove_fails := f\<rparr>) fs p lang = ocr_to_markdown w fs p lang"
  by (simp add: ocr_to_markdown_def Let_def
      cong: option.case_cong sum.case_cong error.case_cong if_cong)

lemma key_ignores_remove: "resolve_api_key (w\<lparr>remove_fails := f\<rparr>) = resolve_api_key w"
  by (simp add: resolve_api_key_def cong: option.case_cong)

lemma llm_ignores_remove:
  "llm_to_markdown (w\<lparr>remove_fails := f\<rparr>) fs p lang = llm_to_markdown w fs p lang"
  by (simp add: llm_to_markdown_def fallback_def Let_def ocr_ignores_remove key_ignores_remove
      cong: option.case_cong post_outcome.case_cong)

lemma dict_get_Nil: "dict_get [] key dflt = dflt"
  by (simp add: dict_get_def)

text \<open>process_ocr on a request whose file is there: the extraction, then the cleanup\<close>

lemma process_found:
  assumes "dict_get data (str ''file_id'') [] = fid" and "fid \<noteq> []"
    and "path_join (UPLOAD_FOLDER w) fid = path" and "fs path = Some b"
    and "ex = (if dict_get data (str ''method'') (str ''ocr'') = str ''llm''
               then llm_to_markdown w fs path (dict_get data (str ''language'') (str ''eng''))
               else ocr_to_markdown w fs path (dict_get data (str ''language'') (str ''eng'')))"
  shows "fst (process_ocr w fs (JsonObject data)) =
           (case fst ex of
              Inr md \<Rightarrow> Inr (200, ProcessBody
                  \<lparr>raw_text = md, lines = content_lines md,
                   method_used = dict_get data (str ''method'') (str ''ocr''),
                   language = dict_get data (str ''language'') (str ''eng''),
                   file_id = fid\<rparr>)
            | Inl e \<Rightarrow> if is_Exception e
                       then Inr (500, ErrorBody (str ''Processing failed: '' @ error_str e))
                       else Inl e)"
    and "fst (snd (process_ocr w fs (JsonObject data))) = fst (cleanup_file w fs path)"
    and "set (snd (cleanup_file w fs path)) \<subseteq> set (snd (snd (process_ocr w fs (JsonObject data))))"
proof -
  have ne: "data \<noteq> []" using assms(1,2) dict_get_Nil by auto
  show "fst (process_ocr w fs (JsonObject data)) =
           (case fst ex of
              Inr md \<Rightarrow> Inr (200, ProcessBody
                  \<lparr>raw_text = md, lines = content_lines md,
                   method_used = dict_get data (str ''method'') (str ''ocr''),
                   language = dict_get data (str ''language'') (str ''eng''),
                   file_id = fid\<rparr>)
            | Inl e \<Rightarrow> if is_Exception e
                       then Inr (500, ErrorBody (str ''Processing failed: '' @ error_str e))
                       else Inl e)"
    using assms ne
    by (cases "dict_get data (str ''method'') (str ''ocr'') = str ''llm''"; cases "fst ex";
        simp add: process_ocr_def Let_def)
  show "fst (snd (process_ocr w fs (JsonObject data))) = fst (cleanup_file w fs path)"
    using assms ne
    by (cases "dict_get data (str ''method'') (str ''ocr'') = str ''llm''"; cases "fst ex";
        simp add: process_ocr_def Let_def)
  show "set (snd (cleanup_file w fs path)) \<subseteq> set (snd (snd (process_ocr w fs (JsonObject data))))"
    using assms ne
    by (cases "dict_get data (str ''method'') (str ''ocr'') = str ''llm''"; cases "fst ex";
        auto simp: process_ocr_def Let_def)
qed

lemma process_missing:
  assumes "dict_get data (str ''file_id'') [] = fid" and "fid \<noteq> []"
    and "path_join (UPLOAD_FOLDER w) fid = path" and "fs path = None"
  shows "process_ocr w fs (JsonObject data) = (Inr (404, ErrorBody (str ''File not found'')), fs, [])"
proof -
  have ne: "data \<noteq> []" using assms(1,2) dict_get_Nil by auto
  show ?thesis using assms ne by (simp add: process_ocr_def Let_def)
qed

lemma ocr_request_facts:
  "dict_get [(str ''file_id'', str ''f.png'')] (str ''file_id'') [] = str ''f.png''"
  "str ''f.png'' \<noteq> []"
  "path_join (UPLOAD_FOLDER example_world) (str ''f.png'') = example_path"
  "path_join (UPLOAD_FOLDER stuck_file_world) (str ''f.png'') = example_path"
  "example_fs example_path = Some [1]"
  "\<not> remove_fails example_world example_path"
  "remove_fails stuck_file_world example_path"
  by (simp_all add: dict_get_def path_join_def example_world_def stuck_file_world_def
      example_path_def example_fs_def startswith_def)

lemma stuck_process:
  "process_ocr stuck_file_world example_fs ocr_request =
     (Inr (200, ProcessBody \<lparr>raw_text = [72, 105, 10], lines = [[72, 105]],
             method_used = str ''ocr'', language = str ''eng'', file_id = str ''f.png''\<rparr>),
      example_fs,
      [Logged (ProcessingWithOCR (str ''f.png'')), RunOcr (str ''eng''),
       Logged (CleanupFailed example_path)])"
proof -
  have p: "path_join (UPLOAD_FOLDER stuck_file_world) (str ''f.png'') = example_path"
    by (rule ocr_request_facts(4))
  have o: "ocr_to_markdown stuck_file_world example_fs example_path (str ''eng'') =
     (Inr [72, 105, 10], [RunOcr (str ''eng'')])"
    by (simp add: ocr_to_markdown_def stuck_file_world_def example_world_def example_fs_def
        example_path_def Let_def normalize_Hi[simplified])
  have c: "content_lines [72, 105, 10] = [[72, 105]]"
    by (simp add: content_lines_def is_space_def rstrip_def lstrip_def strip_def)
  have cl: "cleanup_file stuck_file_world example_fs example_path
      = (example_fs, [Logged (CleanupFailed example_path)])"
    by (simp add: cleanup_file_def stuck_file_world_def example_fs_def)
  have f: "example_fs example_path = Some [1]" by (rule ocr_request_facts(5))
  show ?thesis
    unfolding process_ocr_def ocr_request_def
    by (simp add: dict_get_def p[simplified] o[simplified] c cl f Let_def)
qed




section \<open>The claims\<close>

text \<open>
  Claim C10. For every successful process call, the \<open>lines\<close> field of the response
  data is the list of the lines of \<open>raw_text\<close> (its pieces between newlines), each
  stripped of surrounding whitespace, with the blank ones removed; it never contains an
  empty string.
\<close>

theorem C10_lines:
  "response_data (fst (process_ocr w fs request)) = Some d \<Longrightarrow>
     lines d = filter (\<lambda>l. l \<noteq> []) (map strip (split_on NL (raw_text d)))
     \<and> [] \<notin> set (lines d)"
  using process_ocr_data[of w fs request d] by (auto simp: content_lines_eq)

theorem C10_lines_witness:
  "response_data (fst (process_ocr example_world example_fs example_request))
     = Some \<lparr>raw_text = [72, 105, 10], lines = [[72, 105]],
             method_used = str ''llm'', language = str ''hrv'', file_id = str ''f.png''\<rparr>
   \<and> [[72, 105]] = filter (\<lambda>l. l \<noteq> []) (map strip (split_on NL [72, 105, 10]))
   \<and> [] \<notin> set [[72, 105::nat]]"
proof -
  have h: "response_data (fst (process_ocr example_world example_fs example_request))
     = Some \<lparr>raw_text = [72, 105, 10], lines = [[72, 105]],
             method_used = str ''llm'', language = str ''hrv'', file_id = str ''f.png''\<rparr>"
    by (simp add: example_process)
  from C10_lines[OF h] h show ?thesis by simp
qed

text \<open>
  Claim C1, as amended. The extraction result of a successful process call reports the
  method and the language that the caller asked for (\<open>ocr\<close> and \<open>eng\<close> when the
  request names none), whatever the extractors then did. The method reported is the one
  actually used exactly when it is \<open>ocr\<close>, or \<open>llm\<close> and the OCR engine was
  never run.
\<close>

theorem C1_result_echoes_request:
  assumes "response_data (fst (process_ocr w fs (JsonObject data))) = Some d"
  shows "method_used d = dict_get data (str ''method'') (str ''ocr'')
       \<and> language d = dict_get data (str ''language'') (str ''eng'')
       \<and> (method_used d = method_actually_used (snd (snd (process_ocr w fs (JsonObject data))))
            \<longleftrightarrow> method_used d = str ''ocr''
               \<or> (method_used d = str ''llm''
                   \<and> ocr_runs (snd (snd (process_ocr w fs (JsonObject data)))) = []))"
proof -
  let ?m = "dict_get data (str ''method'') (str ''ocr'')"
  let ?ev = "snd (snd (process_ocr w fs (JsonObject data)))"
  from process_ocr_data[OF assms]
  have m: "method_used d = ?m" and l: "language d = dict_get data (str ''language'') (str ''eng'')"
    by auto
  have "method_used d = method_actually_used ?ev
          \<longleftrightarrow> method_used d = str ''ocr'' \<or> (method_used d = str ''llm'' \<and> ocr_runs ?ev = [])"
  proof (cases "?m = str ''llm''")
    case True
    then show ?thesis unfolding m method_actually_used_def using llm_neq_ocr by auto
  next
    case False
    let ?p = "path_join (UPLOAD_FOLDER w) (dict_get data (str ''file_id'') [])"
    let ?lang = "dict_get data (str ''language'') (str ''eng'')"
    from assms False obtain t where t: "fst (ocr_to_markdown w fs ?p ?lang) = Inr t"
      by (auto simp: process_ocr_def Let_def split: if_splits sum.splits)
    then have ev: "?ev = Logged (ProcessingWithOCR (dict_get data (str ''file_id'') []))
                      # snd (ocr_to_markdown w fs ?p ?lang) @ snd (cleanup_file w fs ?p)"
      using assms False by (auto simp: process_ocr_def Let_def split: if_splits sum.splits)
    have "ocr_runs ?ev \<noteq> []"
      unfolding ev using ocr_success_runs[OF t] by (simp add: ocr_runs_append)
    then show ?thesis unfolding m method_actually_used_def using False by auto
  qed
  then show ?thesis using m l by blast
qed

theorem C1_result_echoes_request_witness:
  "response_data (fst (process_ocr example_world example_fs example_request))
     = Some \<lparr>raw_text = [72, 105, 10], lines = [[72, 105]],
             method_used = str ''llm'', language = str ''hrv'', file_id = str ''f.png''\<rparr>
   \<and> dict_get [(str ''file_id'', str ''f.png''), (str ''method'', str ''llm''),
                 (str ''language'', str ''hrv'')] (str ''method'') (str ''ocr'') = str ''llm''
   \<and> dict_get [(str ''file_id'', str ''f.png''), (str ''method'', str ''llm''),
                 (str ''language'', str ''hrv'')] (str ''language'') (str ''eng'') = str ''hrv''"
proof -
  have h: "response_data (fst (process_ocr example_world example_fs
             (JsonObject [(str ''file_id'', str ''f.png''), (str ''method'', str ''llm''),
                 (str ''language'', str ''hrv'')])))
     = Some \<lparr>raw_text = [72, 105, 10], lines = [[72, 105]],
             method_used = str ''llm'', language = str ''hrv'', file_id = str ''f.png''\<rparr>"
    using example_process by (simp add: example_request_def)
  from C1_result_echoes_request[OF h] h show ?thesis
    by (simp add: example_request_def)
qed

text \<open>
  Claim C1 as stated fails: without an API key and without Croatian language data, a
  request for method \<open>llm\<close> and language \<open>hrv\<close> is served by the OCR engine in
  English, and the result still says \<open>llm\<close> and \<open>hrv\<close>.
\<close>

theorem C1_counterexample:
  "map_option method_used
     (response_data (fst (process_ocr example_world example_fs example_request)))
     = Some (str ''llm'')
   \<and> method_actually_used (snd (snd (process_ocr example_world example_fs example_request)))
     = str ''ocr''
   \<and> map_option language
     (response_data (fst (process_ocr example_world example_fs example_request)))
     = Some (str ''hrv'')
   \<and> language_actually_applied
       (snd (snd (process_ocr example_world example_fs example_request)))
     = Some (str ''eng'')"
  by (simp add: example_process method_actually_used_def language_actually_applied_def)

text \<open>
  Claim C9. The remote extractor names the language in its prompt through a table of
  exactly six language codes; every other code, among them \<open>eng+hrv\<close> that the
  languages endpoint lists, gives \<open>English\<close>. Whenever a request is posted, its
  prompt carries that name.
\<close>

theorem C9_lang_context:
  "lang_context (str ''hrv'') = str ''Croatian''
   \<and> lang_context (str ''eng'') = str ''English''
   \<and> lang_context (str ''fra'') = str ''French''
   \<and> lang_context (str ''deu'') = str ''German''
   \<and> lang_context (str ''spa'') = str ''Spanish''
   \<and> lang_context (str ''ita'') = str ''Italian''
   \<and> length lang_names = 6
   \<and> distinct (map fst lang_names)
   \<and> (lang \<notin> set (map fst lang_names) \<longrightarrow> lang_context lang = str ''English'')
   \<and> str ''eng+hrv'' \<in> set (map fst get_available_languages)
   \<and> lang_context (str ''eng+hrv'') = str ''English''
   \<and> (requests_available w \<and> fs p = Some b \<and> resolve_api_key w = Some k \<longrightarrow>
        hd (snd (llm_to_markdown w fs p lang)) = PostRequest (prompt (lang_context lang)))"
proof -
  have six: "lang_context (str ''hrv'') = str ''Croatian''
   \<and> lang_context (str ''eng'') = str ''English''
   \<and> lang_context (str ''fra'') = str ''French''
   \<and> lang_context (str ''deu'') = str ''German''
   \<and> lang_context (str ''spa'') = str ''Spanish''
   \<and> lang_context (str ''ita'') = str ''Italian''"
    by (simp add: lang_context_def lang_names_def)
  have shape: "length lang_names = 6 \<and> distinct (map fst lang_names)"
    by (simp add: lang_names_def)
  have other: "lang \<notin> set (map fst lang_names) \<longrightarrow> lang_context lang = str ''English''"
  proof
    assume "lang \<notin> set (map fst lang_names)"
    then have "map_of lang_names lang = None" by (simp add: map_of_eq_None_iff)
    then show "lang_context lang = str ''English''" by (simp add: lang_context_def)
  qed
  have adv: "str ''eng+hrv'' \<in> set (map fst get_available_languages)
      \<and> lang_context (str ''eng+hrv'') = str ''English''"
    by (simp add: get_available_languages_def lang_context_def lang_names_def)
  show ?thesis using six shape other adv llm_first_event[of w fs p b k lang] by blast
qed

theorem C9_lang_context_witness:
  "str ''xyz'' \<notin> set (map fst lang_names)
   \<and> lang_context (str ''xyz'') = str ''English''
   \<and> requests_available keyed_world
   \<and> example_fs example_path = Some [1]
   \<and> resolve_api_key keyed_world = Some (str ''sk-or-v1-abc'')
   \<and> hd (snd (llm_to_markdown keyed_world example_fs example_path (str ''xyz'')))
       = PostRequest (prompt (lang_context (str ''xyz'')))"
proof -
  have a: "str ''xyz'' \<notin> set (map fst lang_names)" by (simp add: lang_names_def)
  have b: "requests_available keyed_world" by (simp add: keyed_world_def example_world_def)
  have c: "example_fs example_path = Some [1]" by (simp add: example_fs_def)
  show ?thesis
    using C9_lang_context[of "str ''xyz''" keyed_world example_fs example_path "[1]"
        "str ''sk-or-v1-abc''"] a b c keyed_key
    by blast
qed

text \<open>
  Claim C7. When the image was opened and preprocessed, so that the OCR engine was
  reached, and the engine fails with a \<open>TesseractError\<close>
  saying \<open>Failed loading language\<close>, \<open>ocr_to_markdown\<close> prints the warning and
  runs the engine once more, with \<open>eng\<close>, and the outcome of that second run is
  the outcome of the call. Any other engine error is the outcome of the call, after a
  single run.
\<close>

theorem C7_language_fallback:
  assumes "fs p = Some b" and "image_open w b = Some img0"
    and "grayscale w img0 = Inr gray" and "autocontrast w gray = Inr img"
    and "l = (if lang = [] then str ''eng'' else lang)"
  shows "(\<forall>m. image_to_string w img l = Inl (TesseractError m)
               \<and> contains m (str ''Failed loading language'') \<longrightarrow>
            ocr_to_markdown w fs p lang =
              (map_sum id markdown_normalization (image_to_string w img (str ''eng'')),
               [RunOcr l, Printed (LanguageNotAvailable lang), RunOcr (str ''eng'')]))
       \<and> (\<forall>e. image_to_string w img l = Inl e
               \<and> \<not> (\<exists>m. e = TesseractError m \<and> contains m (str ''Failed loading language''))
               \<longrightarrow> ocr_to_markdown w fs p lang = (Inl e, [RunOcr l]))"
proof (intro conjI allI impI)
  fix m
  assume "image_to_string w img l = Inl (TesseractError m)
      \<and> contains m (str ''Failed loading language'')"
  then show "ocr_to_markdown w fs p lang =
      (map_sum id markdown_normalization (image_to_string w img (str ''eng'')),
       [RunOcr l, Printed (LanguageNotAvailable lang), RunOcr (str ''eng'')])"
    using assms
    by (cases "image_to_string w img (str ''eng'')")
       (simp_all add: ocr_to_markdown_def Let_def del: contains.simps)
next
  fix e
  assume a: "image_to_string w img l = Inl e
      \<and> \<not> (\<exists>m. e = TesseractError m \<and> contains m (str ''Failed loading language''))"
  then show "ocr_to_markdown w fs p lang = (Inl e, [RunOcr l])"
    using assms
    by (cases e) (simp_all add: ocr_to_markdown_def Let_def del: contains.simps)
qed

theorem C7_language_fallback_witness:
  "image_to_string example_world [1] (str ''hrv'')
      = Inl (TesseractError (str ''Failed loading language''))
   \<and> contains (str ''Failed loading language'') (str ''Failed loading language'')
   \<and> ocr_to_markdown example_world example_fs example_path (str ''hrv'') =
        (Inr (markdown_normalization (str ''Hi'')),
         [RunOcr (str ''hrv''), Printed (LanguageNotAvailable (str ''hrv'')),
          RunOcr (str ''eng'')])
   \<and> image_to_string broken_engine_world [1] (str ''hrv'') = Inl (TesseractError (str ''boom''))
   \<and> \<not> contains (str ''boom'') (str ''Failed loading language'')
   \<and> ocr_to_markdown broken_engine_world example_fs example_path (str ''hrv'') =
        (Inl (TesseractError (str ''boom'')), [RunOcr (str ''hrv'')])"
proof -
  have f: "example_fs example_path = Some [1]" by (simp add: example_fs_def)
  have o1: "image_open example_world [1] = Some [1]" by (simp add: example_world_def)
  have g1: "grayscale example_world [1] = Inr [1]" by (simp add: example_world_def)
  have a1: "autocontrast example_world [1] = Inr [1]" by (simp add: example_world_def)
  have l: "str ''hrv'' = (if str ''hrv'' = [] then str ''eng'' else str ''hrv'')" by simp
  have e1: "image_to_string example_world [1] (str ''hrv'')
      = Inl (TesseractError (str ''Failed loading language''))"
    by (simp add: example_world_def)
  have c1: "contains (str ''Failed loading language'') (str ''Failed loading language'')"
    by (simp add: startswith_def)
  have r1: "image_to_string example_world [1] (str ''eng'') = Inr (str ''Hi'')"
    by (simp add: example_world_def)
  have o2: "image_open broken_engine_world [1] = Some [1]"
    by (simp add: broken_engine_world_def keyed_world_def example_world_def)
  have g2: "grayscale broken_engine_world [1] = Inr [1]"
    by (simp add: broken_engine_world_def keyed_world_def example_world_def)
  have a2: "autocontrast broken_engine_world [1] = Inr [1]"
    by (simp add: broken_engine_world_def keyed_world_def example_world_def)
  have e2: "image_to_string broken_engine_world [1] (str ''hrv'')
      = Inl (TesseractError (str ''boom''))"
    by (simp add: broken_engine_world_def)
  have c2: "\<not> contains (str ''boom'') (str ''Failed loading language'')"
    by (simp add: startswith_def)
  have n2: "\<not> (\<exists>m. TesseractError (str ''boom'') = TesseractError m
              \<and> contains m (str ''Failed loading language''))"
    using c2 by auto
  from C7_language_fallback[where fs = example_fs and p = example_path and b = "[1]"
        and w = example_world and ?img0.0 = "[1]" and gray = "[1]" and img = "[1]"
        and l = "str ''hrv''" and lang = "str ''hrv''", OF f o1 g1 a1 l] e1 c1
  have a: "ocr_to_markdown example_world example_fs example_path (str ''hrv'') =
        (map_sum id markdown_normalization (image_to_string example_world [1] (str ''eng'')),
         [RunOcr (str ''hrv''), Printed (LanguageNotAvailable (str ''hrv'')),
          RunOcr (str ''eng'')])"
    by blast
  from C7_language_fallback[where fs = example_fs and p = example_path and b = "[1]"
        and w = broken_engine_world and ?img0.0 = "[1]" and gray = "[1]" and img = "[1]"
        and l = "str ''hrv''" and lang = "str ''hrv''", OF f o2 g2 a2 l] e2 n2
  have b: "ocr_to_markdown broken_engine_world example_fs example_path (str ''hrv'') =
        (Inl (TesseractError (str ''boom'')), [RunOcr (str ''hrv'')])"
    by blast
  show ?thesis using a b e1 c1 e2 c2 by (simp only: r1 map_sum.simps id_apply simp_thms)
qed

text \<open>
  Claim C4, as amended. When the \<open>requests\<close> library could be imported, and neither
  a line of the secrets file nor the environment variable holds a key that is not empty
  and not a placeholder, \<open>llm_to_markdown\<close> gives what \<open>ocr_to_markdown\<close> gives on
  the same image and language; when the image file is there, it prints the warning first.
\<close>

theorem C4_no_credential:
  assumes "requests_available w"
    and "\<forall>ls. env_file w = Some ls \<longrightarrow>
           (\<forall>raw\<in>set ls. startswith (strip raw) (str ''OPENROUTER_API_KEY='')
              \<longrightarrow> \<not> valid_key (key_of_line (strip raw)))"
    and "\<forall>k. environ_key w = Some k \<longrightarrow> \<not> valid_key k"
  shows "fst (llm_to_markdown w fs p lang) = fst (ocr_to_markdown w fs p lang)
       \<and> (fs p \<noteq> None \<longrightarrow>
            snd (llm_to_markdown w fs p lang)
              = Printed NoApiKey # snd (ocr_to_markdown w fs p lang))"
proof -
  have "(case env_file w of None \<Rightarrow> None | Some ls \<Rightarrow> env_file_key ls) = None"
    using assms(2) by (cases "env_file w") (simp_all add: env_file_key_None_iff)
  then have "resolve_api_key w = None"
    using assms(3) by (cases "environ_key w") (simp_all add: resolve_api_key_def)
  then show ?thesis using llm_without_key[OF assms(1)] by blast
qed

theorem C4_no_credential_witness:
  "requests_available placeholder_world
   \<and> env_file placeholder_world = Some [str ''OPENROUTER_API_KEY=your_api_key_here'']
   \<and> startswith (strip (str ''OPENROUTER_API_KEY=your_api_key_here'')) (str ''OPENROUTER_API_KEY='')
   \<and> \<not> valid_key (key_of_line (strip (str ''OPENROUTER_API_KEY=your_api_key_here'')))
   \<and> environ_key placeholder_world = Some (str ''your-key'')
   \<and> \<not> valid_key (str ''your-key'')
   \<and> example_fs example_path \<noteq> None
   \<and> fst (llm_to_markdown placeholder_world example_fs example_path (str ''eng''))
       = fst (ocr_to_markdown placeholder_world example_fs example_path (str ''eng''))
   \<and> snd (llm_to_markdown placeholder_world example_fs example_path (str ''eng''))
       = Printed NoApiKey # snd (ocr_to_markdown placeholder_world example_fs example_path (str ''eng''))"
proof -
  have r: "requests_available placeholder_world"
    by (simp add: placeholder_world_def example_world_def)
  have e: "env_file placeholder_world = Some [str ''OPENROUTER_API_KEY=your_api_key_here'']"
    by (simp add: placeholder_world_def)
  have s: "strip (str ''OPENROUTER_API_KEY=your_api_key_here'')
             = str ''OPENROUTER_API_KEY=your_api_key_here''"
    by (simp add: strip_def lstrip_def rstrip_def is_space_def)
  have st: "startswith (strip (str ''OPENROUTER_API_KEY=your_api_key_here''))
              (str ''OPENROUTER_API_KEY='')"
    unfolding s by (simp add: startswith_def)
  have k: "key_of_line (str ''OPENROUTER_API_KEY=your_api_key_here'') = str ''your_api_key_here''"
    by (simp add: key_of_line_def strip_chars_def strip_def lstrip_def rstrip_def is_space_def)
  have v: "\<not> valid_key (key_of_line (strip (str ''OPENROUTER_API_KEY=your_api_key_here'')))"
    unfolding s k by (simp add: valid_key_def)
  have en: "environ_key placeholder_world = Some (str ''your-key'')"
    by (simp add: placeholder_world_def)
  have v2: "\<not> valid_key (str ''your-key'')" by (simp add: valid_key_def startswith_def)
  have f: "example_fs example_path \<noteq> None" by (simp add: example_fs_def)
  have h2: "\<forall>ls. env_file placeholder_world = Some ls \<longrightarrow>
           (\<forall>raw\<in>set ls. startswith (strip raw) (str ''OPENROUTER_API_KEY='')
              \<longrightarrow> \<not> valid_key (key_of_line (strip raw)))"
    using e v by auto
  have h3: "\<forall>k. environ_key placeholder_world = Some k \<longrightarrow> \<not> valid_key k"
    using en v2 by auto
  from C4_no_credential[OF r h2 h3, of example_fs example_path "str ''eng''"] r e st v en v2 f
  show ?thesis by blast
qed

text \<open>
  Claim C4 as stated fails where \<open>import requests\<close> had failed: \<open>llm_to_markdown\<close>
  then leaves with \<open>SystemExit\<close> before it looks for a key, while \<open>ocr_to_markdown\<close>
  returns the text.
\<close>

theorem C4_counterexample:
  "resolve_api_key no_requests_world = None
   \<and> fst (llm_to_markdown no_requests_world example_fs example_path (str ''eng''))
       = Inl (SystemExit (str ''requests library required for LLM parsing. Install with: pip install requests''))
   \<and> fst (ocr_to_markdown no_requests_world example_fs example_path (str ''eng''))
       = Inr [72, 105, 10]"
proof -
  have a: "resolve_api_key no_requests_world = None"
    by (simp add: resolve_api_key_def no_requests_world_def example_world_def)
  have b: "fst (llm_to_markdown no_requests_world example_fs example_path (str ''eng''))
       = Inl (SystemExit (str ''requests library required for LLM parsing. Install with: pip install requests''))"
    by (simp add: llm_to_markdown_def no_requests_world_def)
  have c: "fst (ocr_to_markdown no_requests_world example_fs example_path (str ''eng''))
       = Inr [72, 105, 10]"
    by (simp add: ocr_to_markdown_def no_requests_world_def example_world_def example_fs_def
        example_path_def Let_def normalize_Hi[simplified])
  show ?thesis using a b c by blast
qed

text \<open>
  Claim C3, as amended. When the remote extractor reaches the network call, then on a
  timeout, on any other request error, on any other exception and on a reply without a
  usable \<open>choices[0].message.content\<close> it posts once, prints a warning and ends as
  \<open>ocr_to_markdown\<close> ends on the same image and language: with the same text, or with
  the same error of the local extraction. No error of the remote call itself comes out.
\<close>

theorem C3_remote_failure_falls_back:
  assumes "requests_available w" and "fs p = Some b" and "resolve_api_key w = Some k"
    and "http_post w k (prompt (lang_context lang)) b = outcome"
    and "outcome = PostTimeout \<or> outcome = PostRequestException \<or> outcome = PostOtherException
         \<or> (\<exists>j. outcome = PostJson j \<and> response_content j = None)"
  shows "fst (llm_to_markdown w fs p lang) = fst (ocr_to_markdown w fs p lang)
       \<and> (\<exists>m. snd (llm_to_markdown w fs p lang)
              = [PostRequest (prompt (lang_context lang)), Printed m]
                @ snd (ocr_to_markdown w fs p lang))"
  using llm_fallback[where w = w and fs = fs and p = p and b = b and k = k and lang = lang
      and outcome = outcome] assms
  by blast

theorem C3_remote_failure_falls_back_witness:
  "requests_available keyed_world
   \<and> example_fs example_path = Some [1]
   \<and> resolve_api_key keyed_world = Some (str ''sk-or-v1-abc'')
   \<and> http_post keyed_world (str ''sk-or-v1-abc'') (prompt (lang_context (str ''eng''))) [1]
       = PostTimeout
   \<and> fst (llm_to_markdown keyed_world example_fs example_path (str ''eng'')) = Inr [72, 105, 10]
   \<and> http_post empty_reply_world (str ''sk-or-v1-abc'') (prompt (lang_context (str ''eng''))) [1]
       = PostJson (JObj [(str ''choices'', JArr [])])
   \<and> response_content (JObj [(str ''choices'', JArr [])]) = None
   \<and> fst (llm_to_markdown empty_reply_world example_fs example_path (str ''eng''))
       = Inr [72, 105, 10]"
proof -
  have r: "requests_available keyed_world" by (simp add: keyed_world_def example_world_def)
  have f: "example_fs example_path = Some [1]" by (simp add: example_fs_def)
  have h: "http_post keyed_world (str ''sk-or-v1-abc'') (prompt (lang_context (str ''eng''))) [1]
       = PostTimeout"
    by (simp add: keyed_world_def example_world_def)
  have d: "PostTimeout = PostTimeout \<or> PostTimeout = PostRequestException
      \<or> PostTimeout = PostOtherException
      \<or> (\<exists>j. PostTimeout = PostJson j \<and> response_content j = None)" by simp
  have r2: "requests_available empty_reply_world"
    by (simp add: empty_reply_world_def keyed_world_def example_world_def)
  have h2: "http_post empty_reply_world (str ''sk-or-v1-abc'')
              (prompt (lang_context (str ''eng''))) [1]
       = PostJson (JObj [(str ''choices'', JArr [])])"
    by (simp add: empty_reply_world_def)
  have n: "response_content (JObj [(str ''choices'', JArr [])]) = None"
    by (simp add: response_content_def)
  have d2: "PostJson (JObj [(str ''choices'', JArr [])]) = PostTimeout
      \<or> PostJson (JObj [(str ''choices'', JArr [])]) = PostRequestException
      \<or> PostJson (JObj [(str ''choices'', JArr [])]) = PostOtherException
      \<or> (\<exists>j. PostJson (JObj [(str ''choices'', JArr [])]) = PostJson j
              \<and> response_content j = None)"
    using n by blast
  from C3_remote_failure_falls_back[where w = keyed_world and fs = example_fs
        and p = example_path and b = "[1]" and lang = "str ''eng''", OF r f keyed_key h d]
  have a: "fst (llm_to_markdown keyed_world example_fs example_path (str ''eng''))
             = Inr [72, 105, 10]"
    using keyed_ocr_eng by (metis fst_conv)
  from C3_remote_failure_falls_back[where w = empty_reply_world and fs = example_fs
        and p = example_path and b = "[1]" and lang = "str ''eng''",
        OF r2 f empty_reply_key h2 d2]
  have b: "fst (llm_to_markdown empty_reply_world example_fs example_path (str ''eng''))
             = Inr [72, 105, 10]"
    using empty_reply_ocr_eng by (metis fst_conv)
  show ?thesis using r f keyed_key h a h2 n b by blast
qed

text \<open>
  Claim C3 as stated fails: after a timeout of the remote call the fallback runs the OCR
  engine, and when that engine fails the error reaches the caller of
  \<open>llm_to_markdown\<close>.
\<close>

theorem C3_counterexample:
  "requests_available broken_engine_world
   \<and> example_fs example_path = Some [1]
   \<and> resolve_api_key broken_engine_world = Some (str ''sk-or-v1-abc'')
   \<and> http_post broken_engine_world (str ''sk-or-v1-abc'')
        (prompt (lang_context (str ''eng''))) [1] = PostTimeout
   \<and> fst (llm_to_markdown broken_engine_world example_fs example_path (str ''eng''))
       = Inl (TesseractError (str ''boom''))"
proof -
  have r: "requests_available broken_engine_world"
    by (simp add: broken_engine_world_def keyed_world_def example_world_def)
  have f: "example_fs example_path = Some [1]" by (simp add: example_fs_def)
  have h: "http_post broken_engine_world (str ''sk-or-v1-abc'')
        (prompt (lang_context (str ''eng''))) [1] = PostTimeout"
    by (simp add: broken_engine_world_def keyed_world_def example_world_def)
  have o: "fst (ocr_to_markdown broken_engine_world example_fs example_path (str ''eng''))
       = Inl (TesseractError (str ''boom''))"
    by (simp add: ocr_to_markdown_def broken_engine_world_def keyed_world_def
        example_world_def example_fs_def example_path_def Let_def startswith_def)
  have "fst (llm_to_markdown broken_engine_world example_fs example_path (str ''eng''))
       = Inl (TesseractError (str ''boom''))"
    using llm_fallback(1)[where w = broken_engine_world and fs = example_fs
        and p = example_path and b = "[1]" and lang = "str ''eng''",
        OF r f broken_engine_key h] o by simp
  then show ?thesis using r f broken_engine_key h by blast
qed


text \<open>
  Claim C5, as amended. For every input string the normalisation inside
  \<open>ocr_to_markdown\<close> is the normaliser of the specification: trailing whitespace
  stripped from each line, every run of blank lines collapsed to one empty line, the
  joined text stripped, one newline appended. Hence the output ends with exactly one
  newline and the text before that newline neither begins nor ends with whitespace. When
  the input has a character that is not whitespace, the first and the last line of the
  output are not blank; when it has none, the output is the single newline.
\<close>

theorem C5_normalizer:
  "markdown_normalization raw = spec_normalize raw
   \<and> endswith (markdown_normalization raw) [NL]
   \<and> \<not> endswith (markdown_normalization raw) [NL, NL]
   \<and> lstrip (butlast (markdown_normalization raw)) = butlast (markdown_normalization raw)
   \<and> rstrip (butlast (markdown_normalization raw)) = butlast (markdown_normalization raw)
   \<and> (\<not> blank raw \<longrightarrow>
        \<not> blank (hd (splitlines (markdown_normalization raw)))
        \<and> \<not> blank (last (splitlines (markdown_normalization raw))))
   \<and> (blank raw \<longrightarrow> markdown_normalization raw = [NL])"
proof -
  let ?md = "collapse_runs (map rstrip (splitlines raw))"
  have out: "markdown_normalization raw = strip (join_nl ?md) @ [NL]"
    by (simp add: normalization_refines spec_normalize_def)
  have a: "markdown_normalization raw = spec_normalize raw" by (rule normalization_refines)
  have b: "endswith (markdown_normalization raw) [NL]
      \<and> \<not> endswith (markdown_normalization raw) [NL, NL]"
    unfolding out by (rule stripped_newline)
  have c: "lstrip (butlast (markdown_normalization raw)) = butlast (markdown_normalization raw)"
    unfolding out by (simp add: lstrip_strip)
  have d: "rstrip (butlast (markdown_normalization raw)) = butlast (markdown_normalization raw)"
    unfolding out by (simp add: rstrip_strip)
  have e: "\<not> blank raw \<longrightarrow>
        \<not> blank (hd (splitlines (markdown_normalization raw)))
        \<and> \<not> blank (last (splitlines (markdown_normalization raw)))"
    using normalization_ends[of raw] normalization_blank[of raw] by blast
  show ?thesis using a b c d e normalization_of_blank[of raw] by blast
qed

theorem C5_normalizer_witness:
  "\<not> blank [32, 97, 32, 10, 10, 10, 98, 10]
   \<and> markdown_normalization [32, 97, 32, 10, 10, 10, 98, 10] = [97, 10, 10, 98, 10]
   \<and> \<not> blank (hd (splitlines (markdown_normalization [32, 97, 32, 10, 10, 10, 98, 10])))
   \<and> \<not> blank (last (splitlines (markdown_normalization [32, 97, 32, 10, 10, 10, 98, 10])))
   \<and> blank [32, 10]
   \<and> markdown_normalization [32, 10] = [NL]"
proof -
  have e: "markdown_normalization [32, 97, 32, 10, 10, 10, 98, 10] = [97, 10, 10, 98, 10]"
    by (simp add: markdown_normalization_def is_linebreak_def is_space_def startswith_def
        rstrip_def lstrip_def strip_def)
  have n: "\<not> blank [32, 97, 32, 10, 10, 10, 98, 10]" by (simp add: blank_def is_space_def)
  have b: "blank [32, 10]" by (simp add: blank_def is_space_def)
  show ?thesis
    using C5_normalizer[of "[32, 97, 32, 10, 10, 10, 98, 10]"] C5_normalizer[of "[32, 10]"] e n b
    by blast
qed

text \<open>
  Claim C5 as stated fails for the empty input: the output is the single newline, a
  text of one line, and that line is blank.
\<close>

theorem C5_counterexample:
  "markdown_normalization [] = [NL]
   \<and> splitlines (markdown_normalization []) = [[]]
   \<and> blank (hd (splitlines (markdown_normalization [])))
   \<and> blank (last (splitlines (markdown_normalization [])))"
proof -
  have e: "markdown_normalization [] = [NL]"
    by (simp add: markdown_normalization_def rstrip_def lstrip_def strip_def)
  have s: "splitlines [NL] = [[]]" by (simp add: is_linebreak_def)
  show ?thesis unfolding e s by (simp add: blank_def)
qed



text \<open>
  Claim C6, as amended. For every process call whose token names a stored file,
  whichever way the extraction ends, the cleanup runs: when \<open>os.remove\<close> succeeds the
  file is gone and a second call with the same token answers 404, \<open>File not found\<close>;
  when \<open>os.remove\<close> fails the file stays, the failure is logged, and the response is
  the one the call would give had the removal succeeded.
\<close>

theorem C6_file_removed:
  assumes "dict_get data (str ''file_id'') [] = fid" and "fid \<noteq> []"
    and "path_join (UPLOAD_FOLDER w) fid = path" and "fs path = Some b"
  shows "fst (snd (process_ocr w fs (JsonObject data)))
           = (if remove_fails w path then fs else fs(path := None))
       \<and> (\<not> remove_fails w path \<longrightarrow>
             fst (snd (process_ocr w fs (JsonObject data))) path = None
             \<and> process_ocr w (fst (snd (process_ocr w fs (JsonObject data)))) (JsonObject data)
                 = (Inr (404, ErrorBody (str ''File not found'')), fs(path := None), []))
       \<and> fst (process_ocr w fs (JsonObject data))
           = fst (process_ocr (w\<lparr>remove_fails := (\<lambda>_. False)\<rparr>) fs (JsonObject data))
       \<and> (remove_fails w path \<longrightarrow>
             Logged (CleanupFailed path) \<in> set (snd (snd (process_ocr w fs (JsonObject data)))))"
proof -
  define ex where "ex = (if dict_get data (str ''method'') (str ''ocr'') = str ''llm''
               then llm_to_markdown w fs path (dict_get data (str ''language'') (str ''eng''))
               else ocr_to_markdown w fs path (dict_get data (str ''language'') (str ''eng'')))"
  let ?w' = "w\<lparr>remove_fails := (\<lambda>_. False)\<rparr>"
  have ex': "ex = (if dict_get data (str ''method'') (str ''ocr'') = str ''llm''
               then llm_to_markdown ?w' fs path (dict_get data (str ''language'') (str ''eng''))
               else ocr_to_markdown ?w' fs path (dict_get data (str ''language'') (str ''eng'')))"
    unfolding ex_def by (simp only: ocr_ignores_remove llm_ignores_remove)
  have p': "path_join (UPLOAD_FOLDER ?w') fid = path" using assms(3) by simp
  note found = process_found[where w = w and fs = fs and path = path and fid = fid
      and data = data and b = b and ex = ex, OF assms ex_def]
  note found' = process_found[where w = ?w' and fs = fs and path = path and fid = fid
      and data = data and b = b and ex = ex, OF assms(1,2) p' assms(4) ex']
  have c: "cleanup_file w fs path
      = (if remove_fails w path then (fs, [Logged (CleanupFailed path)]) else (fs(path := None), []))"
    using assms(4) by (simp add: cleanup_file_def)
  have a: "fst (snd (process_ocr w fs (JsonObject data)))
           = (if remove_fails w path then fs else fs(path := None))"
    using found(2) c by simp
  have b: "\<not> remove_fails w path \<longrightarrow>
             fst (snd (process_ocr w fs (JsonObject data))) path = None
             \<and> process_ocr w (fst (snd (process_ocr w fs (JsonObject data)))) (JsonObject data)
                 = (Inr (404, ErrorBody (str ''File not found'')), fs(path := None), [])"
  proof
    assume n: "\<not> remove_fails w path"
    then have e: "fst (snd (process_ocr w fs (JsonObject data))) = fs(path := None)"
      using a by simp
    have "(fs(path := None)) path = None" by simp
    from process_missing[where fs = "fs(path := None)" and path = path and fid = fid and w = w
        and data = data, OF assms(1,2,3) this] e
    show "fst (snd (process_ocr w fs (JsonObject data))) path = None
             \<and> process_ocr w (fst (snd (process_ocr w fs (JsonObject data)))) (JsonObject data)
                 = (Inr (404, ErrorBody (str ''File not found'')), fs(path := None), [])"
      by simp
  qed
  have d: "remove_fails w path \<longrightarrow>
             Logged (CleanupFailed path) \<in> set (snd (snd (process_ocr w fs (JsonObject data))))"
    using found(3) c by auto
  have r: "fst (process_ocr w fs (JsonObject data)) = fst (process_ocr ?w' fs (JsonObject data))"
    using found(1) found'(1) by simp
  show ?thesis using a b d r by blast
qed

theorem C6_file_removed_witness:
  "dict_get [(str ''file_id'', str ''f.png'')] (str ''file_id'') [] = str ''f.png''
   \<and> str ''f.png'' \<noteq> []
   \<and> path_join (UPLOAD_FOLDER example_world) (str ''f.png'') = example_path
   \<and> example_fs example_path = Some [1]
   \<and> \<not> remove_fails example_world example_path
   \<and> fst (snd (process_ocr example_world example_fs ocr_request)) example_path = None
   \<and> process_ocr example_world (fst (snd (process_ocr example_world example_fs ocr_request)))
        ocr_request
       = (Inr (404, ErrorBody (str ''File not found'')), example_fs(example_path := None), [])
   \<and> path_join (UPLOAD_FOLDER stuck_file_world) (str ''f.png'') = example_path
   \<and> remove_fails stuck_file_world example_path
   \<and> Logged (CleanupFailed example_path)
        \<in> set (snd (snd (process_ocr stuck_file_world example_fs ocr_request)))"
proof -
  note f = ocr_request_facts
  from C6_file_removed[where w = example_world and fs = example_fs and path = example_path
      and fid = "str ''f.png''" and data = "[(str ''file_id'', str ''f.png'')]" and b = "[1]",
      OF f(1) f(2) f(3) f(5)] f(6)
  have a: "fst (snd (process_ocr example_world example_fs ocr_request)) example_path = None
   \<and> process_ocr example_world (fst (snd (process_ocr example_world example_fs ocr_request)))
        ocr_request
       = (Inr (404, ErrorBody (str ''File not found'')), example_fs(example_path := None), [])"
    unfolding ocr_request_def by blast
  from C6_file_removed[where w = stuck_file_world and fs = example_fs and path = example_path
      and fid = "str ''f.png''" and data = "[(str ''file_id'', str ''f.png'')]" and b = "[1]",
      OF f(1) f(2) f(4) f(5)] f(7)
  have b: "Logged (CleanupFailed example_path)
        \<in> set (snd (snd (process_ocr stuck_file_world example_fs ocr_request)))"
    unfolding ocr_request_def by blast
  show ?thesis using a b f by blast
qed

text \<open>
  Claim C6 as stated fails where \<open>os.remove\<close> fails: the failure is swallowed, the
  file is still there after the call, and a second call with the same token is served
  with status 200 instead of 404.
\<close>

theorem C6_counterexample:
  "remove_fails stuck_file_world example_path
   \<and> example_fs example_path = Some [1]
   \<and> fst (snd (process_ocr stuck_file_world example_fs ocr_request)) example_path = Some [1]
   \<and> status_of (fst (process_ocr stuck_file_world
         (fst (snd (process_ocr stuck_file_world example_fs ocr_request))) ocr_request))
       = Some 200"
  by (simp add: stuck_process ocr_request_facts)




end
